theory Spec2Isabelle
  imports Main "HOL-Library.AList"
begin

section \<open>JavaScript values\<close>

text \<open>
  The form auto-save service (\<^verbatim>\<open>FormAutoSaveService\<close>) and the submission routine of the
  application class (\<^verbatim>\<open>BkjsApplication.submitForm\<close>) are embedded as functions on an
  explicit \<open>world\<close> record.  Values of the host language are a datatype; numbers are
  integers (the only numbers the service creates are \<^verbatim>\<open>Date.now()\<close> readings), objects are
  association lists in insertion order, without a prototype chain.  A form control has a
  name, an id, a type, a string value, a checked flag and a list of selected files;
  assigning to its value stores the string as it is.
\<close>

datatype jsval =
    JUndefined
  | JNull
  | JBool bool
  | JNum int
  | JStr string
  | JObject "(string \<times> jsval) list"
  | JArray "jsval list"

type_synonym obj = "(string \<times> jsval) list"

datatype exn = SyntaxError | TypeError | NetworkFailure | QuotaExceeded | Error string

fun truthy :: "jsval \<Rightarrow> bool" where
  "truthy JUndefined = False"
| "truthy JNull = False"
| "truthy (JBool b) = b"
| "truthy (JNum n) = (n \<noteq> 0)"
| "truthy (JStr s) = (s \<noteq> [])"
| "truthy (JObject al) = True"
| "truthy (JArray xs) = True"

text \<open>\<^verbatim>\<open>a || b\<close>\<close>

definition js_or :: "jsval \<Rightarrow> jsval \<Rightarrow> jsval" where
  "js_or a b = (if truthy a then a else b)"

definition digit :: "nat \<Rightarrow> char" where
  "digit d = ''0123456789'' ! d"

fun show_nat :: "nat \<Rightarrow> string" where
  "show_nat n = (if n < 10 then [digit n] else show_nat (n div 10) @ [digit (n mod 10)])"

declare show_nat.simps [simp del]

definition show_int :: "int \<Rightarrow> string" where
  "show_int i = (if i < 0 then CHR ''-'' # show_nat (nat (- i)) else show_nat (nat i))"

fun join_comma :: "string list \<Rightarrow> string" where
  "join_comma [] = []"
| "join_comma [s] = s"
| "join_comma (s # t # ss) = s @ '','' @ join_comma (t # ss)"

text \<open>String conversion, as applied when a value is assigned to \<^verbatim>\<open>element.value\<close> or passed
  to \<^verbatim>\<open>getElementById\<close>.\<close>

fun to_string :: "jsval \<Rightarrow> string" where
  "to_string JUndefined = ''undefined''"
| "to_string JNull = ''null''"
| "to_string (JBool b) = (if b then ''true'' else ''false'')"
| "to_string (JNum n) = show_int n"
| "to_string (JStr s) = s"
| "to_string (JObject al) = ''[object Object]''"
| "to_string (JArray xs) =
     join_comma (map (\<lambda>x. if x = JUndefined \<or> x = JNull then [] else to_string x) xs)"

definition lookup :: "obj \<Rightarrow> string \<Rightarrow> jsval" where
  "lookup al k = (case map_of al k of None \<Rightarrow> JUndefined | Some v \<Rightarrow> v)"

definition array_index :: "string \<Rightarrow> nat \<Rightarrow> nat option" where
  "array_index k n = find (\<lambda>i. show_nat i = k) [0..<n]"

text \<open>Reading a property of a value that is neither \<^verbatim>\<open>null\<close> nor \<^verbatim>\<open>undefined\<close>.\<close>

fun property :: "jsval \<Rightarrow> string \<Rightarrow> jsval" where
  "property (JObject al) k = lookup al k"
| "property (JArray xs) k =
     (if k = ''length'' then JNum (int (length xs))
      else case array_index k (length xs) of None \<Rightarrow> JUndefined | Some i \<Rightarrow> xs ! i)"
| "property (JStr s) k =
     (if k = ''length'' then JNum (int (length s))
      else case array_index k (length s) of None \<Rightarrow> JUndefined | Some i \<Rightarrow> JStr [s ! i])"
| "property v k = JUndefined"

text \<open>\<^verbatim>\<open>v[k]\<close> and \<^verbatim>\<open>v.k\<close>: a TypeError on \<^verbatim>\<open>null\<close> and \<^verbatim>\<open>undefined\<close>.\<close>

definition get :: "jsval \<Rightarrow> string \<Rightarrow> exn + jsval" where
  "get v k = (if v = JNull \<or> v = JUndefined then Inl TypeError else Inr (property v k))"

text \<open>\<^verbatim>\<open>k in v\<close>: a TypeError unless \<open>v\<close> is an object or an array.\<close>

fun has :: "string \<Rightarrow> jsval \<Rightarrow> exn + bool" where
  "has k (JObject al) = Inr (k \<in> fst ` set al)"
| "has k (JArray xs) = Inr (k = ''length'' \<or> array_index k (length xs) \<noteq> None)"
| "has k v = Inl TypeError"

section \<open>Stored text and JSON\<close>

text \<open>
  A string kept in \<^verbatim>\<open>localStorage\<close> is represented by what \<^verbatim>\<open>JSON.parse\<close> makes of it:
  \<open>Json v\<close> is a text that parses to \<open>v\<close>, \<open>NotJson s\<close> is the text \<open>s\<close> on which
  \<^verbatim>\<open>JSON.parse\<close> throws a SyntaxError (the empty string among them).
  \<^verbatim>\<open>JSON.stringify\<close> of an object drops the properties whose value is \<^verbatim>\<open>undefined\<close>.
  Two texts with different representations are different strings.
\<close>

datatype item = Json jsval | NotJson string

definition JSON_stringify :: "obj \<Rightarrow> item" where
  "JSON_stringify al = Json (JObject (filter (\<lambda>(k, v). v \<noteq> JUndefined) al))"

fun JSON_parse :: "item \<Rightarrow> exn + jsval" where
  "JSON_parse (Json v) = Inr v"
| "JSON_parse (NotJson s) = Inl SyntaxError"

text \<open>\<^verbatim>\<open>!savedData\<close> for a stored string: true for the empty string only.\<close>

fun empty_text :: "item \<Rightarrow> bool" where
  "empty_text (Json v) = False"
| "empty_text (NotJson s) = (s = [])"

section \<open>The document\<close>

record element =
  el_name :: string
  el_id :: string
  el_type :: string
  el_value :: string
  el_checked :: bool
  el_files :: "string list"

record form =
  form_id :: string
  elements :: "element list"

definition getElementById :: "form list \<Rightarrow> string \<Rightarrow> form option" where
  "getElementById doc i = find (\<lambda>f. form_id f = i) doc"

text \<open>Writing through the reference that \<open>getElementById\<close> returned: the first form with
  that id is the one that changes.\<close>

fun put_form :: "form \<Rightarrow> form list \<Rightarrow> form list" where
  "put_form f [] = []"
| "put_form f (g # gs) = (if form_id g = form_id f then f # gs else g # put_form f gs)"

definition starts_with :: "string \<Rightarrow> string \<Rightarrow> bool" where
  "starts_with p s = (take (length p) s = p)"

text \<open>\<^verbatim>\<open>s.includes(p)\<close>\<close>

primrec str_includes :: "string \<Rightarrow> string \<Rightarrow> bool" where
  "str_includes [] p = (p = [])"
| "str_includes (c # s) p = (starts_with p (c # s) \<or> str_includes s p)"

definition is_space :: "char \<Rightarrow> bool" where
  "is_space c = (c \<in> set [CHR '' '', CHR 0x09, CHR 0x0A, CHR 0x0B, CHR 0x0C, CHR 0x0D])"

text \<open>\<^verbatim>\<open>s.trim()\<close>\<close>

definition trim :: "string \<Rightarrow> string" where
  "trim s = rev (dropWhile is_space (rev (dropWhile is_space s)))"

section \<open>Timers, network and the world\<close>

text \<open>
  A pending \<^verbatim>\<open>setTimeout\<close> callback: the debounced save of \<open>handleFormChange\<close> or the retry
  that \<open>syncToServer\<close> schedules with the form data it was called with.  The timers that
  only hide an indicator again change nothing that is modelled and are left out.
\<close>

datatype action = SaveFormData | RetrySync obj

record timer =
  t_id :: nat
  due :: nat
  act :: action

datatype request =
    GetCsrfToken
  | AutoSaveForm obj jsval
  | UploadFile string jsval
  | SubmitForm obj
  | LogError exn

text \<open>The outcome of a \<^verbatim>\<open>fetch\<close> followed by \<^verbatim>\<open>response.json()\<close>: either of them rejects, or
  there is a status flag (\<^verbatim>\<open>response.ok\<close>) and a parsed body.  The server is a parameter:
  its answer to a request sent at a given time.  Answers arrive without delay, so an
  asynchronous method runs as one step.\<close>

datatype response = Rejected | Http bool jsval

type_synonym server = "request \<Rightarrow> nat \<Rightarrow> response"

datatype popup = SuccessModal string jsval | ErrorAlert exn

record world =
  now :: nat
  document :: "form list"
  labels :: "string \<Rightarrow> string option"
  notices :: "string list"
  localStorage :: "string \<Rightarrow> item option"
  storage_full :: bool
  timers :: "timer list"
  next_timer :: nat
  requests :: "request list"
  saves :: "nat list"
  retryCount :: nat
  saveTimer :: "nat option"
  currentFormId :: "string option"
  csrfToken :: jsval
  enabled :: bool
  lastSyncTime :: "nat option"
  app_csrfToken :: jsval
  currentUser :: jsval
  popups :: "popup list"
  production :: bool

text \<open>
  \<open>now\<close> is \<^verbatim>\<open>Date.now()\<close> in milliseconds; \<open>labels\<close> holds the text of the file-name spans
  that exist; \<open>notices\<close> lists the messages shown in the indicator and error boxes;
  \<open>storage_full\<close> makes \<^verbatim>\<open>localStorage.setItem\<close> throw; \<open>requests\<close> lists the requests sent;
  \<open>saves\<close> lists the times at which \<open>saveFormData\<close> ran past its guard;
  \<open>retryCount\<close> to \<open>lastSyncTime\<close> are the fields of the service, \<open>app_csrfToken\<close> and
  \<open>currentUser\<close> those of the application state.
\<close>

definition STORAGE_KEY :: string where
  "STORAGE_KEY = ''form_autosave_data''"

definition SAVE_INTERVAL :: nat where
  "SAVE_INTERVAL = 30000"

definition MAX_RETRIES :: nat where
  "MAX_RETRIES = 3"

definition setTimeout :: "action \<Rightarrow> nat \<Rightarrow> world \<Rightarrow> nat \<times> world" where
  "setTimeout a delay w =
     (next_timer w,
      w\<lparr>timers := timers w @ [\<lparr>t_id = next_timer w, due = now w + delay, act = a\<rparr>],
        next_timer := Suc (next_timer w)\<rparr>)"

definition clearTimeout :: "nat option \<Rightarrow> world \<Rightarrow> world" where
  "clearTimeout h w =
     (case h of None \<Rightarrow> w
      | Some i \<Rightarrow> w\<lparr>timers := filter (\<lambda>tm. t_id tm \<noteq> i) (timers w)\<rparr>)"

definition set_label :: "string \<Rightarrow> string \<Rightarrow> world \<Rightarrow> world" where
  "set_label i txt w =
     (case labels w i of None \<Rightarrow> w | Some old \<Rightarrow> w\<lparr>labels := (labels w)(i \<mapsto> txt)\<rparr>)"

definition js_of_id :: "string option \<Rightarrow> jsval" where
  "js_of_id c = (case c of None \<Rightarrow> JNull | Some i \<Rightarrow> JStr i)"

section \<open>FormAutoSaveService\<close>

definition is_tracked :: "form \<Rightarrow> bool" where
  "is_tracked f =
     (starts_with ''membershipForm'' (form_id f) \<or> starts_with ''updateForm'' (form_id f))"

definition setupFormListeners :: "world \<Rightarrow> world" where
  "setupFormListeners w =
     w\<lparr>currentFormId :=
         fold (\<lambda>f c. Some (form_id f)) (filter is_tracked (document w)) (currentFormId w)\<rparr>"

definition handleFormChange :: "world \<Rightarrow> world" where
  "handleFormChange w =
     (if \<not> enabled w then w
      else let (h, w1) = setTimeout SaveFormData 2000 (clearTimeout (saveTimer w) w)
           in w1\<lparr>saveTimer := Some h\<rparr>)"

text \<open>\<^verbatim>\<open>element.name || element.id\<close>\<close>

definition key_of :: "element \<Rightarrow> string" where
  "key_of e = (if el_name e \<noteq> [] then el_name e else el_id e)"

definition is_check :: "element \<Rightarrow> bool" where
  "is_check e = (el_type e = ''checkbox'' \<or> el_type e = ''radio'')"

text \<open>The loop of \<open>getFormData\<close> over \<^verbatim>\<open>form.elements\<close>.\<close>

fun collect :: "element list \<Rightarrow> obj \<Rightarrow> obj" where
  "collect [] formData = formData"
| "collect (e # es) formData =
     (if el_name e \<noteq> [] \<or> el_id e \<noteq> [] then
        (if is_check e then
           collect es (AList.update (key_of e)
                         (JStr (if el_checked e then el_value e else [])) formData)
         else if el_type e = ''file'' then collect es formData
         else collect es (AList.update (key_of e) (JStr (el_value e)) formData))
      else collect es formData)"

definition getFormData :: "world \<Rightarrow> obj" where
  "getFormData w =
     (case getElementById (document w) (to_string (js_of_id (currentFormId w))) of
        None \<Rightarrow> []
      | Some form \<Rightarrow>
          AList.update ''_formId'' (js_of_id (currentFormId w))
            (AList.update ''_timestamp'' (JNum (int (now w))) (collect (elements form) [])))"

definition showAutoSaveIndicator :: "world \<Rightarrow> world" where
  "showAutoSaveIndicator w = w\<lparr>notices := notices w @ [''Changes saved locally'']\<rparr>"

definition showAutoRestoreIndicator :: "world \<Rightarrow> world" where
  "showAutoRestoreIndicator w = w\<lparr>notices := notices w @ [''Restored previous session'']\<rparr>"

definition showError :: "string \<Rightarrow> world \<Rightarrow> world" where
  "showError message w = w\<lparr>notices := notices w @ [message]\<rparr>"

text \<open>\<^verbatim>\<open>setItem\<close> throws when the quota is exceeded; the exception is caught and logged.\<close>

definition saveToLocalStorage :: "obj \<Rightarrow> world \<Rightarrow> world" where
  "saveToLocalStorage data w =
     (if storage_full w then w
      else showAutoSaveIndicator
             (w\<lparr>localStorage := (localStorage w)(STORAGE_KEY \<mapsto> JSON_stringify data)\<rparr>))"

definition loadCsrfToken :: "server \<Rightarrow> world \<Rightarrow> world" where
  "loadCsrfToken srv w =
     (let w1 = w\<lparr>requests := requests w @ [GetCsrfToken]\<rparr> in
      case srv GetCsrfToken (now w) of
        Rejected \<Rightarrow> w1
      | Http ok data \<Rightarrow>
          (case get data ''success'' of
             Inl x \<Rightarrow> w1
           | Inr s \<Rightarrow>
               if truthy s \<and> truthy (property data ''csrfToken'')
               then w1\<lparr>csrfToken := property data ''csrfToken''\<rparr>
               else w1))"

text \<open>The \<^verbatim>\<open>try\<close> block of \<open>syncToServer\<close> after the request is sent.\<close>

definition push_result :: "response \<Rightarrow> exn + unit" where
  "push_result r =
     (case r of
        Rejected \<Rightarrow> Inl NetworkFailure
      | Http ok data \<Rightarrow>
          (case get data ''success'' of
             Inl x \<Rightarrow> Inl x
           | Inr s \<Rightarrow>
               if truthy s then Inr ()
               else Inl (Error (to_string (js_or (property data ''message'')
                                                 (JStr ''Auto-save failed''))))))"

definition syncToServer :: "server \<Rightarrow> obj \<Rightarrow> world \<Rightarrow> world" where
  "syncToServer srv formData w =
     (let w1 = (if \<not> truthy (csrfToken w) then loadCsrfToken srv w else w) in
      if \<not> truthy (csrfToken w1) then w1
      else
        let rq = AutoSaveForm formData (csrfToken w1);
            w2 = w1\<lparr>requests := requests w1 @ [rq]\<rparr>
        in case push_result (srv rq (now w2)) of
             Inr u \<Rightarrow> w2\<lparr>lastSyncTime := Some (now w2), retryCount := 0\<rparr>
           | Inl error \<Rightarrow>
               (let w3 = w2\<lparr>retryCount := Suc (retryCount w2)\<rparr> in
                if retryCount w3 < MAX_RETRIES
                then snd (setTimeout (RetrySync formData) 5000 w3)
                else showError
                  ''Auto-save failed. Working offline - changes will be saved locally.'' w3))"

definition saveFormData :: "server \<Rightarrow> bool \<Rightarrow> world \<Rightarrow> world" where
  "saveFormData srv forceSync w =
     (if \<not> enabled w then w
      else
        let formData = getFormData w;
            w1 = saveToLocalStorage formData (w\<lparr>saves := saves w @ [now w]\<rparr>)
        in if forceSync
              \<or> int (now w1) - int (case lastSyncTime w1 of None \<Rightarrow> 0 | Some t \<Rightarrow> t)
                  > int SAVE_INTERVAL
           then syncToServer srv formData w1
           else w1)"

definition uploadFile :: "server \<Rightarrow> string \<Rightarrow> world \<Rightarrow> (exn + jsval) \<times> world" where
  "uploadFile srv file w =
     (let rq = UploadFile file (csrfToken w);
          w1 = w\<lparr>requests := requests w @ [rq]\<rparr>
      in case srv rq (now w) of
           Rejected \<Rightarrow> (Inl NetworkFailure, w1)
         | Http ok data \<Rightarrow>
             if \<not> ok then (Inl (Error ''File upload failed''), w1)
             else (get data ''fileUrl'', w1))"

definition handleFileUpload :: "server \<Rightarrow> element \<Rightarrow> world \<Rightarrow> world" where
  "handleFileUpload srv fileInput w =
     (if \<not> enabled w then w
      else
        (case el_files fileInput of
           [] \<Rightarrow> w
         | file # rest \<Rightarrow>
             (let span = el_id fileInput @ ''Name'';
                  w1 = set_label span ''Uploading...'' w
              in case uploadFile srv file w1 of
                   (Inl error, w2) \<Rightarrow> set_label span ''Upload failed - try again'' w2
                 | (Inr fileUrl, w2) \<Rightarrow>
                     (let formData = AList.update (el_id fileInput) fileUrl (getFormData w2)
                      in set_label span file (saveToLocalStorage formData w2)))))"

definition isFormFilled :: "world \<Rightarrow> bool" where
  "isFormFilled w =
     (case getElementById (document w) (to_string (js_of_id (currentFormId w))) of
        None \<Rightarrow> False
      | Some form \<Rightarrow>
          list_ex (\<lambda>element.
              (el_type element = ''text'' \<or> el_type element = ''email''
                 \<or> el_type element = ''tel'')
              \<and> trim (el_value element) \<noteq> []
              \<and> \<not> str_includes (el_id element) ''Name''
              \<and> el_id element \<noteq> ''declarationSignature'')
            (elements form))"

text \<open>The body of the loop of \<open>restoreSavedData\<close> over \<^verbatim>\<open>form.elements\<close>.\<close>

definition restore_element :: "jsval \<Rightarrow> element \<Rightarrow> exn + element" where
  "restore_element formData element =
     (let key = key_of element in
      case has key formData of
        Inl x \<Rightarrow> Inl x
      | Inr present \<Rightarrow>
          if present then
            (if is_check element
             then Inr (element\<lparr>el_checked := (property formData key = JStr (el_value element))\<rparr>)
             else if el_type element \<noteq> ''file''
             then Inr (element\<lparr>el_value := to_string (js_or (property formData key) (JStr []))\<rparr>)
             else Inr element)
          else Inr element)"

fun restore_elements :: "jsval \<Rightarrow> element list \<Rightarrow> exn + element list" where
  "restore_elements formData [] = Inr []"
| "restore_elements formData (e # es) =
     (case restore_element formData e of
        Inl x \<Rightarrow> Inl x
      | Inr e' \<Rightarrow>
          (case restore_elements formData es of
             Inl x \<Rightarrow> Inl x
           | Inr es' \<Rightarrow> Inr (e' # es')))"

definition upload_slots :: "string list" where
  "upload_slots = [''aadharFront'', ''aadharBack'', ''profilePhoto'', ''casteCertificate'']"

definition mark_uploaded :: "jsval \<Rightarrow> world \<Rightarrow> world" where
  "mark_uploaded formData w =
     fold (\<lambda>i w. if truthy (property formData i)
                 then set_label (i @ ''Name'') ''Previously uploaded'' w else w)
       upload_slots w"

text \<open>The \<^verbatim>\<open>try\<close> block of \<open>restoreSavedData\<close>; \<open>Inl\<close> is an exception that reaches the
  \<^verbatim>\<open>catch\<close>.\<close>

definition restore_try :: "world \<Rightarrow> exn + world" where
  "restore_try w =
     (case localStorage w STORAGE_KEY of
        None \<Rightarrow> Inr w
      | Some savedData \<Rightarrow>
          (if empty_text savedData then Inr w
           else
             (case JSON_parse savedData of
                Inl x \<Rightarrow> Inl x
              | Inr formData \<Rightarrow>
                  (case get formData ''_formId'' of
                     Inl x \<Rightarrow> Inl x
                   | Inr fid \<Rightarrow>
                       (case getElementById (document w)
                               (to_string (js_or fid (js_of_id (currentFormId w)))) of
                          None \<Rightarrow> Inr w
                        | Some form \<Rightarrow>
                            (if isFormFilled w then Inr w
                             else
                               (case restore_elements formData (elements form) of
                                  Inl x \<Rightarrow> Inl x
                                | Inr es \<Rightarrow>
                                    Inr (showAutoRestoreIndicator
                                          (mark_uploaded formData
                                            (w\<lparr>document :=
                                                 put_form (form\<lparr>elements := es\<rparr>)
                                                   (document w)\<rparr>))))))))))"

text \<open>The \<^verbatim>\<open>catch\<close> only logs to the console.\<close>

definition restoreSavedData :: "world \<Rightarrow> world" where
  "restoreSavedData w = (case restore_try w of Inl error \<Rightarrow> w | Inr w' \<Rightarrow> w')"

definition hasUnsavedChanges :: "world \<Rightarrow> bool" where
  "hasUnsavedChanges w =
     (case localStorage w STORAGE_KEY of
        None \<Rightarrow> False
      | Some savedData \<Rightarrow>
          if empty_text savedData then False
          else savedData \<noteq> JSON_stringify (getFormData w))"

definition clearSavedData :: "world \<Rightarrow> world" where
  "clearSavedData w = w\<lparr>localStorage := (localStorage w)(STORAGE_KEY := None)\<rparr>"

definition setEnabled :: "bool \<Rightarrow> world \<Rightarrow> world" where
  "setEnabled b w =
     (let w1 = w\<lparr>enabled := b\<rparr> in if \<not> b then clearSavedData w1 else w1)"

text \<open>The constructor with \<open>initialize\<close>, and the two listeners that \<open>initialize\<close> installs.
  The second component of \<open>on_beforeunload\<close> says whether the confirm-leave prompt was
  requested.\<close>

definition new_service :: "server \<Rightarrow> world \<Rightarrow> world" where
  "new_service srv w =
     loadCsrfToken srv
       (w\<lparr>retryCount := 0, saveTimer := None, currentFormId := None, csrfToken := JNull,
          enabled := True, lastSyncTime := None\<rparr>)"

definition on_DOMContentLoaded :: "world \<Rightarrow> world" where
  "on_DOMContentLoaded w = restoreSavedData (setupFormListeners w)"

definition on_beforeunload :: "server \<Rightarrow> world \<Rightarrow> world \<times> bool" where
  "on_beforeunload srv w =
     (if hasUnsavedChanges w then (saveFormData srv True w, True) else (w, False))"

section \<open>The timer queue\<close>

definition fire :: "server \<Rightarrow> timer \<Rightarrow> world \<Rightarrow> world" where
  "fire srv tm w =
     (case act tm of
        SaveFormData \<Rightarrow> saveFormData srv False w
      | RetrySync formData \<Rightarrow> syncToServer srv formData w)"

text \<open>A timer that is due leaves the queue and its callback runs, unless an earlier
  callback has cancelled it.\<close>

fun fire_all :: "server \<Rightarrow> timer list \<Rightarrow> world \<Rightarrow> world" where
  "fire_all srv [] w = w"
| "fire_all srv (tm # tms) w =
     fire_all srv tms
       (if tm \<in> set (timers w) then fire srv tm (w\<lparr>timers := remove1 tm (timers w)\<rparr>) else w)"

text \<open>The next moment after \<open>c\<close> and up to \<open>T\<close> at which something is due.\<close>

definition next_stop :: "nat \<Rightarrow> nat \<Rightarrow> timer list \<Rightarrow> nat" where
  "next_stop T c tms = fold min (filter (\<lambda>d. c < d) (map due tms)) T"

text \<open>Letting time pass until \<open>T\<close>: the clock jumps from one due time to the next and the
  callbacks due there run in the order of their due times.\<close>

function run_to :: "server \<Rightarrow> nat \<Rightarrow> world \<Rightarrow> world" where
  "run_to srv T w =
     (if T \<le> now w then w
      else
        let c = next_stop T (now w) (timers w);
            w1 = w\<lparr>now := c\<rparr>;
            w2 = fire_all srv (sort_key due (filter (\<lambda>tm. due tm \<le> c) (timers w1))) w1
        in run_to srv T (w2\<lparr>now := c\<rparr>))"
  by pat_completeness auto
termination
proof (relation "measure (\<lambda>(srv, T, w). T - now w)")
  show "wf (measure (\<lambda>(srv, T, w). T - now w))"
    by simp
next
  fix srv :: server and T :: nat and w :: world and c w1 w2
  assume late: "\<not> T \<le> now w" and c: "c = next_stop T (now w) (timers w)"
  have up: "\<And>ds b. now w < b \<Longrightarrow> now w < fold min (filter (\<lambda>d. now w < d) ds) b"
  proof -
    fix ds :: "nat list" and b
    show "now w < b \<Longrightarrow> now w < fold min (filter (\<lambda>d. now w < d) ds) b"
      by (induction ds arbitrary: b) auto
  qed
  from late have "now w < c"
    unfolding c next_stop_def by (intro up) simp
  with late show "((srv, T, w2\<lparr>now := c\<rparr>), (srv, T, w)) \<in> measure (\<lambda>(srv, T, w). T - now w)"
    by simp
qed

declare run_to.simps [simp del]

text \<open>Field activity at the given moments, the first of them not in the past.\<close>

fun activity :: "server \<Rightarrow> nat list \<Rightarrow> world \<Rightarrow> world" where
  "activity srv [] w = w"
| "activity srv (t # ts) w = activity srv ts (handleFormChange (run_to srv t w))"

section \<open>BkjsApplication.submitForm\<close>

text \<open>The loader of the submit button is not part of the world.\<close>

definition showSuccessModal :: "string \<Rightarrow> jsval \<Rightarrow> world \<Rightarrow> world" where
  "showSuccessModal message referenceId w =
     w\<lparr>popups := popups w @ [SuccessModal message referenceId]\<rparr>"

definition handleError :: "exn \<Rightarrow> world \<Rightarrow> world" where
  "handleError error w =
     (let w1 = w\<lparr>popups := popups w @ [ErrorAlert error]\<rparr> in
      if production w then w1\<lparr>requests := requests w1 @ [LogError error]\<rparr> else w1)"

definition submitForm :: "server \<Rightarrow> string \<Rightarrow> obj \<Rightarrow> world \<Rightarrow> world" where
  "submitForm srv formType formData0 w =
     (let formData = AList.update ''csrfToken'' (app_csrfToken w) formData0;
          action = (if formType = ''register'' then ''submitApplication'' else ''updateUserData'');
          body = fold (\<lambda>(k, v). AList.update k v) formData [(''action'', JStr action)];
          rq = SubmitForm body;
          w1 = w\<lparr>requests := requests w @ [rq]\<rparr>
      in case srv rq (now w) of
           Rejected \<Rightarrow> handleError NetworkFailure w1
         | Http ok data \<Rightarrow>
             (case get data ''success'' of
                Inl x \<Rightarrow> handleError x w1
              | Inr s \<Rightarrow>
                  (if truthy s then
                     (if formType = ''register''
                      then showSuccessModal ''Application submitted successfully!''
                             (property data ''applicationId'') w1
                      else
                        (case get (currentUser w1) ''uniqueId'' of
                           Inl x \<Rightarrow> handleError x w1
                         | Inr uid \<Rightarrow>
                             showSuccessModal ''Update submitted successfully!'' uid w1))
                   else handleError
                          (Error (to_string (js_or (property data ''message'')
                                                   (JStr ''Submission failed'')))) w1)))"

text \<open>A form with its file inputs taken out.\<close>

definition without_files :: "form \<Rightarrow> form" where
  "without_files f = f\<lparr>elements := filter (\<lambda>e. el_type e \<noteq> ''file'') (elements f)\<rparr>"

section \<open>Notions used in the statements\<close>

text \<open>The debounced saves that are pending.\<close>

definition is_save :: "timer \<Rightarrow> bool" where
  "is_save tm = (act tm = SaveFormData)"

definition pending_saves :: "world \<Rightarrow> timer list" where
  "pending_saves w = filter is_save (timers w)"

text \<open>Moments of which each is no earlier than the one before and less than two seconds
  after it.\<close>

fun spaced :: "nat \<Rightarrow> nat list \<Rightarrow> bool" where
  "spaced t [] = True"
| "spaced t (u # us) = (t \<le> u \<and> u < t + 2000 \<and> spaced u us)"

text \<open>Exactly one debounced save is pending, it is due at \<open>d\<close>, and \<open>saveTimer\<close> is its
  handle.\<close>

definition armed :: "nat \<Rightarrow> world \<Rightarrow> bool" where
  "armed d w =
     (enabled w \<and> (\<exists>s. pending_saves w = [s] \<and> due s = d \<and> saveTimer w = Some (t_id s)))"

text \<open>Two worlds with the same debounce state at the same moment.\<close>

definition same_debounce :: "world \<Rightarrow> world \<Rightarrow> bool" where
  "same_debounce w w' =
     (pending_saves w' = pending_saves w \<and> saves w' = saves w \<and> enabled w' = enabled w
      \<and> saveTimer w' = saveTimer w \<and> now w' = now w)"

text \<open>The fields of a snapshot: its entries other than the two that \<open>getFormData\<close> adds as
  metadata.\<close>

definition fields :: "obj \<Rightarrow> string \<Rightarrow> jsval option" where
  "fields d = map_of d |` (- {''_timestamp'', ''_formId''})"

text \<open>The same control on the page loaded again: name, id and type agree, and for a
  checkbox or radio button the \<^verbatim>\<open>value\<close> attribute as well.\<close>

definition same_control :: "element \<Rightarrow> element \<Rightarrow> bool" where
  "same_control e e' =
     (el_name e' = el_name e \<and> el_id e' = el_id e \<and> el_type e' = el_type e
      \<and> (is_check e \<longrightarrow> el_value e' = el_value e))"

text \<open>Whether \<open>getFormData\<close> makes an entry for a control, the value it enters, and the
  value that a list of controls leaves under a key: that of the last control with this key.\<close>

definition captured :: "element \<Rightarrow> bool" where
  "captured e = ((el_name e \<noteq> [] \<or> el_id e \<noteq> []) \<and> el_type e \<noteq> ''file'')"

definition capture :: "element \<Rightarrow> jsval" where
  "capture e = JStr (if is_check e then (if el_checked e then el_value e else []) else el_value e)"

fun last_val :: "string \<Rightarrow> element list \<Rightarrow> jsval option" where
  "last_val k [] = None"
| "last_val k (e # es) =
     (case last_val k es of
        Some v \<Rightarrow> Some v
      | None \<Rightarrow> if captured e \<and> key_of e = k then Some (capture e) else None)"

text \<open>What \<open>restoreSavedData\<close> makes of a control when the stored snapshot is an object.\<close>

definition restored :: "obj \<Rightarrow> element \<Rightarrow> element" where
  "restored al e =
     (if key_of e \<in> fst ` set al then
        (if is_check e then e\<lparr>el_checked := (lookup al (key_of e) = JStr (el_value e))\<rparr>
         else if el_type e \<noteq> ''file''
         then e\<lparr>el_value := to_string (js_or (lookup al (key_of e)) (JStr []))\<rparr>
         else e)
      else e)"

section \<open>Example pages\<close>

definition control :: "string \<Rightarrow> string \<Rightarrow> string \<Rightarrow> bool \<Rightarrow> element" where
  "control i t v c =
     \<lparr>el_name = [], el_id = i, el_type = t, el_value = v, el_checked = c, el_files = []\<rparr>"

text \<open>A registration form: first name, e-mail address, a consent box and an upload slot.\<close>

definition membership_form :: "string \<Rightarrow> string \<Rightarrow> bool \<Rightarrow> form" where
  "membership_form first mail agreed =
     \<lparr>form_id = ''membershipForm'',
      elements =
        [control ''firstName'' ''text'' first False,
         control ''email'' ''email'' mail False,
         control ''agree'' ''checkbox'' ''yes'' agreed,
         (control ''aadharFront'' ''file'' [] False)\<lparr>el_files := [''front.png'']\<rparr>]\<rparr>"

definition update_form :: "string \<Rightarrow> form" where
  "update_form mail =
     \<lparr>form_id = ''updateForm'', elements = [control ''email'' ''email'' mail False]\<rparr>"

text \<open>A page just loaded at the given time: the service is constructed (the server
  answering its token request) and its listeners are set up.\<close>

definition page :: "server \<Rightarrow> nat \<Rightarrow> form list \<Rightarrow> (string \<Rightarrow> item option) \<Rightarrow> world" where
  "page srv t doc store =
     setupFormListeners
       (new_service srv
          \<lparr>now = t, document = doc, labels = [''aadharFrontName'' \<mapsto> []], notices = [],
           localStorage = store, storage_full = False, timers = [], next_timer = 1,
           requests = [], saves = [], retryCount = 0, saveTimer = None, currentFormId = None,
           csrfToken = JNull, enabled = True, lastSyncTime = None, app_csrfToken = JStr ''app-token'',
           currentUser = JNull, popups = [], production = False\<rparr>)"

definition reply :: "obj \<Rightarrow> response" where
  "reply al = Http True (JObject al)"

text \<open>A server that accepts everything, and one that is unreachable.\<close>

fun good_server :: server where
  "good_server GetCsrfToken t = reply [(''success'', JBool True), (''csrfToken'', JStr ''token-1'')]"
| "good_server (AutoSaveForm formData token) t = reply [(''success'', JBool True)]"
| "good_server (UploadFile file token) t = reply [(''fileUrl'', JStr ''https://files/front.png'')]"
| "good_server (SubmitForm body) t =
     reply [(''success'', JBool True), (''applicationId'', JStr ''APP-1'')]"
| "good_server (LogError error) t = reply []"

definition offline :: server where
  "offline rq t = Rejected"

text \<open>A server that issues tokens and refuses every auto-save.\<close>

definition refusing :: server where
  "refusing rq t =
     (case rq of
        GetCsrfToken \<Rightarrow> reply [(''success'', JBool True), (''csrfToken'', JStr ''token-1'')]
      | AutoSaveForm formData token \<Rightarrow> reply [(''success'', JBool False)]
      | UploadFile file token \<Rightarrow> Rejected
      | SubmitForm body \<Rightarrow> Rejected
      | LogError error \<Rightarrow> Rejected)"

definition snapshot :: "string \<Rightarrow> string \<Rightarrow> string \<Rightarrow> item" where
  "snapshot fid first mail =
     Json (JObject [(''firstName'', JStr first), (''email'', JStr mail), (''agree'', JStr ''yes''),
                    (''_timestamp'', JNum 1700000000000), (''_formId'', JStr fid)])"

text \<open>A page just loaded whose storage holds the snapshot of an earlier session, and the
  same page with empty storage.\<close>

definition stored_page :: "form list \<Rightarrow> world" where
  "stored_page doc =
     page good_server 1700000100000 doc
       [STORAGE_KEY \<mapsto> snapshot ''membershipForm'' ''Ravi'' ''r@x.org'']"

definition first_visit :: "form list \<Rightarrow> world" where
  "first_visit doc = page good_server 1700000100000 doc Map.empty"

text \<open>A first visit on which the form is saved once and then left alone for a millisecond.\<close>

definition idle_page :: world where
  "idle_page =
     run_to good_server 1700000100001
       (saveFormData good_server False (first_visit [membership_form ''Asha'' [] False]))"

text \<open>A first visit with a server that refuses every auto-save, after the forced save.\<close>

definition refused_once :: world where
  "refused_once =
     saveFormData refusing True
       (page refusing 1700000100000 [membership_form ''Asha'' [] False] Map.empty)"

text \<open>A first visit without network.\<close>

definition cut_off :: world where
  "cut_off = page offline 1700000100000 [membership_form ''Asha'' [] False] Map.empty"

text \<open>A page with a stored snapshot on which a field was changed half a second ago.\<close>

definition typing_page :: world where
  "typing_page =
     run_to good_server 1700000100500
       (handleFormChange (stored_page [membership_form ''Asha'' [] False]))"

text \<open>A first visit with the form filled in, and the page loaded again later with the
  snapshot of that visit in the storage and the form empty.\<close>

definition filled_visit :: world where
  "filled_visit = first_visit [membership_form ''Asha'' ''a@x.org'' True]"

definition reloaded_page :: world where
  "reloaded_page =
     page good_server 1700000200000 [membership_form [] [] False]
       (localStorage (saveToLocalStorage (getFormData filled_visit) filled_visit))"

section \<open>Unfolding the model on concrete pages\<close>

lemmas model_defs = page_def new_service_def setupFormListeners_def is_tracked_def starts_with_def
  membership_form_def update_form_def control_def reply_def offline_def refusing_def snapshot_def
  loadCsrfToken_def get_def lookup_def js_or_def js_of_id_def getElementById_def
  getFormData_def key_of_def is_check_def STORAGE_KEY_def SAVE_INTERVAL_def MAX_RETRIES_def
  saveToLocalStorage_def showAutoSaveIndicator_def JSON_stringify_def
  syncToServer_def push_result_def setTimeout_def clearTimeout_def showError_def
  saveFormData_def handleFormChange_def uploadFile_def handleFileUpload_def set_label_def
  isFormFilled_def trim_def is_space_def restore_element_def mark_uploaded_def upload_slots_def
  restore_try_def restoreSavedData_def showAutoRestoreIndicator_def hasUnsavedChanges_def
  clearSavedData_def setEnabled_def on_DOMContentLoaded_def on_beforeunload_def
  fire_def next_stop_def run_to.simps showSuccessModal_def handleError_def submitForm_def Let_def
  stored_page_def first_visit_def idle_page_def refused_once_def cut_off_def typing_page_def filled_visit_def reloaded_page_def

section \<open>Snapshots\<close>

lemma set_update_cases:
  "(k', v') \<in> set (AList.update k v al) \<Longrightarrow> (k', v') = (k, v) \<or> (k', v') \<in> set al"
  by (induction al) (auto split: if_splits)

lemma collect_defined:
  "\<forall>(k, v) \<in> set fd. v \<noteq> JUndefined \<Longrightarrow> \<forall>(k, v) \<in> set (collect es fd). v \<noteq> JUndefined"
proof (induction es arbitrary: fd)
  case Nil
  then show ?case by simp
next
  case (Cons e es)
  have step: "\<And>k s. \<forall>(k, v) \<in> set (AList.update k (JStr s) fd). v \<noteq> JUndefined"
    using Cons.prems by (auto dest: set_update_cases)
  show ?case
    using Cons.IH [OF step] Cons.IH [OF Cons.prems] by simp
qed

lemma getFormData_defined: "\<forall>(k, v) \<in> set (getFormData w). v \<noteq> JUndefined"
proof -
  have "\<forall>(k, v) \<in> set (collect es []). v \<noteq> JUndefined" for es
    by (rule collect_defined) simp
  then show ?thesis
    by (auto simp: getFormData_def js_of_id_def split: option.splits dest!: set_update_cases)
qed

lemma stringify_getFormData: "JSON_stringify (getFormData w) = Json (JObject (getFormData w))"
proof -
  have "filter (\<lambda>(k, v). v \<noteq> JUndefined) (getFormData w) = getFormData w"
    using getFormData_defined [of w] by (intro filter_True) auto
  then show ?thesis
    by (simp add: JSON_stringify_def)
qed

lemma timestamp_of_getFormData:
  "getFormData w = [] \<or> lookup (getFormData w) ''_timestamp'' = JNum (int (now w))"
  by (simp add: getFormData_def lookup_def AList.update_conv' split: option.splits)

text \<open>
  Claim C10.  \<open>hasUnsavedChanges\<close> compares the stored text with the serialisation of a fresh
  \<open>getFormData\<close>, whose \<^verbatim>\<open>_timestamp\<close> is the current time.  So whenever a snapshot is stored
  and the call happens at another millisecond than the snapshot's \<^verbatim>\<open>_timestamp\<close>, the
  answer is true, whatever the field values are, and the \<^verbatim>\<open>beforeunload\<close> listener forces a
  save and requests the confirm-leave prompt.
\<close>

theorem hasUnsavedChanges_timestamp:
  assumes "localStorage w STORAGE_KEY = Some (Json v)"
    and "property v ''_timestamp'' = JNum t"
    and "t \<noteq> int (now w)"
  shows "hasUnsavedChanges w \<and> on_beforeunload srv w = (saveFormData srv True w, True)"
proof -
  have "v \<noteq> JObject (getFormData w)"
  proof
    assume "v = JObject (getFormData w)"
    with assms(2) have "lookup (getFormData w) ''_timestamp'' = JNum t"
      by simp
    with timestamp_of_getFormData [of w] assms(3) show False
      by (auto simp: lookup_def)
  qed
  then have "hasUnsavedChanges w"
    using assms(1) by (simp add: hasUnsavedChanges_def stringify_getFormData)
  then show ?thesis
    by (simp add: on_beforeunload_def)
qed


text \<open>
  The statement of C10 on a page saved one millisecond ago and not touched since.
\<close>

theorem hasUnsavedChanges_timestamp_witness:
  "localStorage idle_page STORAGE_KEY
     = Some (Json (JObject [(''firstName'', JStr ''Asha''), (''email'', JStr []), (''agree'', JStr []),
                            (''_timestamp'', JNum 1700000100000),
                            (''_formId'', JStr ''membershipForm'')]))
   \<and> getFormData idle_page
     = [(''firstName'', JStr ''Asha''), (''email'', JStr []), (''agree'', JStr []),
        (''_timestamp'', JNum 1700000100001), (''_formId'', JStr ''membershipForm'')]
   \<and> hasUnsavedChanges idle_page
   \<and> snd (on_beforeunload good_server idle_page)"
  using hasUnsavedChanges_timestamp
      [of idle_page
          "JObject [(''firstName'', JStr ''Asha''), (''email'', JStr []), (''agree'', JStr []),
                    (''_timestamp'', JNum 1700000100000), (''_formId'', JStr ''membershipForm'')]"
          1700000100000 good_server]
  by (simp add: model_defs)

section \<open>What each method leaves alone\<close>

lemma getFormData_cong:
  "document w' = document w \<Longrightarrow> currentFormId w' = currentFormId w \<Longrightarrow> now w' = now w
   \<Longrightarrow> getFormData w' = getFormData w"
  by (simp add: getFormData_def split: option.splits)

lemma loadCsrfToken_frame [simp]:
  "now (loadCsrfToken srv w) = now w"
  "document (loadCsrfToken srv w) = document w"
  "labels (loadCsrfToken srv w) = labels w"
  "notices (loadCsrfToken srv w) = notices w"
  "localStorage (loadCsrfToken srv w) = localStorage w"
  "storage_full (loadCsrfToken srv w) = storage_full w"
  "timers (loadCsrfToken srv w) = timers w"
  "next_timer (loadCsrfToken srv w) = next_timer w"
  "saves (loadCsrfToken srv w) = saves w"
  "retryCount (loadCsrfToken srv w) = retryCount w"
  "saveTimer (loadCsrfToken srv w) = saveTimer w"
  "currentFormId (loadCsrfToken srv w) = currentFormId w"
  "enabled (loadCsrfToken srv w) = enabled w"
  "lastSyncTime (loadCsrfToken srv w) = lastSyncTime w"
  "requests (loadCsrfToken srv w) = requests w @ [GetCsrfToken]"
  by (simp_all add: loadCsrfToken_def Let_def split: response.splits sum.splits)

lemma syncToServer_frame [simp]:
  "now (syncToServer srv fd w) = now w"
  "document (syncToServer srv fd w) = document w"
  "labels (syncToServer srv fd w) = labels w"
  "localStorage (syncToServer srv fd w) = localStorage w"
  "storage_full (syncToServer srv fd w) = storage_full w"
  "saves (syncToServer srv fd w) = saves w"
  "saveTimer (syncToServer srv fd w) = saveTimer w"
  "currentFormId (syncToServer srv fd w) = currentFormId w"
  "enabled (syncToServer srv fd w) = enabled w"
  by (simp_all add: syncToServer_def Let_def setTimeout_def showError_def split: sum.splits)

lemma saveToLocalStorage_frame [simp]:
  "now (saveToLocalStorage d w) = now w"
  "document (saveToLocalStorage d w) = document w"
  "labels (saveToLocalStorage d w) = labels w"
  "storage_full (saveToLocalStorage d w) = storage_full w"
  "timers (saveToLocalStorage d w) = timers w"
  "next_timer (saveToLocalStorage d w) = next_timer w"
  "requests (saveToLocalStorage d w) = requests w"
  "saves (saveToLocalStorage d w) = saves w"
  "retryCount (saveToLocalStorage d w) = retryCount w"
  "saveTimer (saveToLocalStorage d w) = saveTimer w"
  "currentFormId (saveToLocalStorage d w) = currentFormId w"
  "csrfToken (saveToLocalStorage d w) = csrfToken w"
  "enabled (saveToLocalStorage d w) = enabled w"
  "lastSyncTime (saveToLocalStorage d w) = lastSyncTime w"
  by (simp_all add: saveToLocalStorage_def showAutoSaveIndicator_def)

lemma saveToLocalStorage_stored:
  "\<not> storage_full w \<Longrightarrow> localStorage (saveToLocalStorage d w) STORAGE_KEY = Some (JSON_stringify d)"
  by (simp add: saveToLocalStorage_def showAutoSaveIndicator_def)

lemma saveFormData_frame [simp]:
  "now (saveFormData srv force w) = now w"
  "document (saveFormData srv force w) = document w"
  "labels (saveFormData srv force w) = labels w"
  "storage_full (saveFormData srv force w) = storage_full w"
  "saveTimer (saveFormData srv force w) = saveTimer w"
  "currentFormId (saveFormData srv force w) = currentFormId w"
  "enabled (saveFormData srv force w) = enabled w"
  by (simp_all add: saveFormData_def Let_def)

lemma saveFormData_saves:
  "saves (saveFormData srv force w) = (if enabled w then saves w @ [now w] else saves w)"
  by (simp add: saveFormData_def Let_def)

lemma saveFormData_persists:
  "enabled w \<Longrightarrow> \<not> storage_full w
   \<Longrightarrow> localStorage (saveFormData srv force w) STORAGE_KEY = Some (JSON_stringify (getFormData w))"
  by (simp add: saveFormData_def Let_def saveToLocalStorage_stored)

lemma set_label_frame [simp]:
  "now (set_label i txt w) = now w"
  "document (set_label i txt w) = document w"
  "localStorage (set_label i txt w) = localStorage w"
  "storage_full (set_label i txt w) = storage_full w"
  "currentFormId (set_label i txt w) = currentFormId w"
  "csrfToken (set_label i txt w) = csrfToken w"
  "enabled (set_label i txt w) = enabled w"
  by (simp_all add: set_label_def split: option.splits)

lemma uploadFile_frame [simp]:
  "now (snd (uploadFile srv file w)) = now w"
  "document (snd (uploadFile srv file w)) = document w"
  "localStorage (snd (uploadFile srv file w)) = localStorage w"
  "storage_full (snd (uploadFile srv file w)) = storage_full w"
  "currentFormId (snd (uploadFile srv file w)) = currentFormId w"
  by (simp_all add: uploadFile_def Let_def split: response.splits)

lemma uploadFile_result:
  "csrfToken w' = csrfToken w \<Longrightarrow> now w' = now w
   \<Longrightarrow> fst (uploadFile srv file w') = fst (uploadFile srv file w)"
  by (simp add: uploadFile_def Let_def split: response.splits)

lemma popup_frame [simp]:
  "localStorage (handleError e w) = localStorage w"
  "enabled (handleError e w) = enabled w"
  "timers (handleError e w) = timers w"
  "saveTimer (handleError e w) = saveTimer w"
  "localStorage (showSuccessModal m r w) = localStorage w"
  "enabled (showSuccessModal m r w) = enabled w"
  "timers (showSuccessModal m r w) = timers w"
  "saveTimer (showSuccessModal m r w) = saveTimer w"
  by (simp_all add: handleError_def showSuccessModal_def Let_def)

section \<open>File inputs\<close>

lemma collect_without_files:
  "collect (filter (\<lambda>e. el_type e \<noteq> ''file'') es) fd = collect es fd"
  by (induction es arbitrary: fd) (simp_all add: is_check_def)

lemma getElementById_without_files:
  "getElementById (map without_files doc) i = map_option without_files (getElementById doc i)"
  by (induction doc) (simp_all add: getElementById_def without_files_def)

lemma getFormData_without_files:
  "getFormData (w\<lparr>document := map without_files (document w)\<rparr>) = getFormData w"
  by (simp add: getFormData_def getElementById_without_files collect_without_files
      without_files_def split: option.splits)

lemma handleFileUpload_persists:
  assumes "enabled w" "\<not> storage_full w" "el_files fileInput = file # rest"
    and "fst (uploadFile srv file w) = Inr url"
  shows "localStorage (handleFileUpload srv fileInput w) STORAGE_KEY =
         Some (JSON_stringify (AList.update (el_id fileInput) url (getFormData w)))"
proof -
  define w1 where "w1 = set_label (el_id fileInput @ ''Name'') ''Uploading...'' w"
  have "fst (uploadFile srv file w1) = Inr url"
    using assms(4) uploadFile_result [of w1 w srv "file"] by (simp add: w1_def)
  then obtain w2 where up: "uploadFile srv file w1 = (Inr url, w2)"
    by (cases "uploadFile srv file w1") simp
  then have w2: "w2 = snd (uploadFile srv file w1)"
    by simp
  have same: "getFormData w2 = getFormData w"
    by (rule getFormData_cong) (simp_all add: w2 w1_def)
  have "\<not> storage_full w2"
    using assms(2) by (simp add: w2 w1_def)
  then show ?thesis
    using assms(1,3) up same
    by (simp add: handleFileUpload_def Let_def w1_def [symmetric] saveToLocalStorage_stored)
qed

text \<open>
  Claim C7, as amended.  File inputs contribute nothing to the snapshot that \<open>getFormData\<close>
  builds (it is the snapshot of the form with its file inputs taken out), and that
  snapshot is what \<open>saveFormData\<close> persists.  \<open>handleFileUpload\<close> persists the same snapshot
  with one more entry, keyed by the id of the file input and holding the URL that the
  upload returned.
\<close>

theorem file_inputs_in_snapshots:
  "getFormData (w\<lparr>document := map without_files (document w)\<rparr>) = getFormData w
   \<and> (enabled w \<and> \<not> storage_full w \<longrightarrow>
        localStorage (saveFormData srv force w) STORAGE_KEY = Some (JSON_stringify (getFormData w)))
   \<and> (enabled w \<and> \<not> storage_full w \<and> el_files fileInput = file # rest
        \<and> fst (uploadFile srv file w) = Inr url \<longrightarrow>
        localStorage (handleFileUpload srv fileInput w) STORAGE_KEY =
          Some (JSON_stringify (AList.update (el_id fileInput) url (getFormData w))))"
  using getFormData_without_files saveFormData_persists handleFileUpload_persists by blast

section \<open>Submission\<close>

text \<open>
  Claim C4, as amended.  \<open>submitForm\<close> changes neither the storage nor the \<open>enabled\<close> flag nor
  the pending timers of the auto-save service, whatever the server answers; the snapshot
  is removed and auto-save switched off by \<open>setEnabled(false)\<close>, which the submission does not
  call.
\<close>

theorem submitForm_leaves_autosave:
  "localStorage (submitForm srv formType formData w) = localStorage w
   \<and> enabled (submitForm srv formType formData w) = enabled w
   \<and> timers (submitForm srv formType formData w) = timers w
   \<and> localStorage (setEnabled False w) STORAGE_KEY = None
   \<and> \<not> enabled (setEnabled False w)"
  by (simp add: submitForm_def Let_def setEnabled_def clearSavedData_def
      split: response.splits sum.splits)


text \<open>
  The statement of C4 on a page that holds a stored snapshot.
\<close>

theorem submitForm_leaves_autosave_witness:
  "localStorage (submitForm good_server ''register'' [] (stored_page [membership_form ''Asha'' [] True]))
     = localStorage (stored_page [membership_form ''Asha'' [] True])
   \<and> enabled (submitForm good_server ''register'' [] (stored_page [membership_form ''Asha'' [] True]))
   \<and> localStorage (setEnabled False (stored_page [membership_form ''Asha'' [] True])) STORAGE_KEY = None"
  using submitForm_leaves_autosave
    [of good_server "''register''" "[]" "stored_page [membership_form ''Asha'' [] True]"]
  by (simp add: model_defs)

text \<open>
  Against claim C4 as stated: a registration is submitted, the server accepts it and the
  success modal is shown; the stored snapshot is still there and auto-save is still on.
\<close>

theorem snapshot_survives_submission:
  "popups (submitForm good_server ''register'' [(''firstName'', JStr ''Asha'')]
             (stored_page [membership_form ''Asha'' [] True]))
     = [SuccessModal ''Application submitted successfully!'' (JStr ''APP-1'')]
   \<and> localStorage (submitForm good_server ''register'' [(''firstName'', JStr ''Asha'')]
                      (stored_page [membership_form ''Asha'' [] True])) STORAGE_KEY
     = Some (snapshot ''membershipForm'' ''Ravi'' ''r@x.org'')
   \<and> enabled (submitForm good_server ''register'' [(''firstName'', JStr ''Asha'')]
                 (stored_page [membership_form ''Asha'' [] True]))"
  by (simp add: model_defs)

text \<open>
  Claim C3 at a failing input.  The visitor has typed a first name into the text field
  with id \<^verbatim>\<open>firstName\<close>.  The id contains \<^verbatim>\<open>Name\<close>, so \<open>isFormFilled\<close> passes the field over, the
  form counts as not filled, and \<open>restoreSavedData\<close> replaces the typed name by the stored one.
\<close>

theorem restore_overwrites_first_name:
  "\<not> isFormFilled (stored_page [membership_form ''Asha'' [] False])
   \<and> document (restoreSavedData (stored_page [membership_form ''Asha'' [] False]))
       = [membership_form ''Ravi'' ''r@x.org'' True]"
  by (simp add: model_defs)

text \<open>
  Against claim C7 as stated: after an upload through the file input \<^verbatim>\<open>aadharFront\<close> the
  persisted snapshot has an entry under that key.
\<close>

theorem file_url_is_persisted:
  "localStorage (handleFileUpload good_server
       ((control ''aadharFront'' ''file'' [] False)\<lparr>el_files := [''front.png'']\<rparr>)
       (first_visit [membership_form ''Asha'' [] False])) STORAGE_KEY
   = Some (Json (JObject [(''firstName'', JStr ''Asha''), (''email'', JStr []), (''agree'', JStr []),
                          (''_timestamp'', JNum 1700000100000), (''_formId'', JStr ''membershipForm''),
                          (''aadharFront'', JStr ''https://files/front.png'')]))"
  by (simp add: model_defs)

text \<open>
  The statement of C7 on a first visit: the snapshot with and without the file input, the
  text stored by a forced save, and the text stored by an upload.
\<close>

theorem file_inputs_in_snapshots_witness:
  "getFormData (first_visit [without_files (membership_form ''Asha'' [] False)])
     = getFormData (first_visit [membership_form ''Asha'' [] False])
   \<and> localStorage (saveFormData good_server True (first_visit [membership_form ''Asha'' [] False]))
        STORAGE_KEY
     = Some (Json (JObject [(''firstName'', JStr ''Asha''), (''email'', JStr []), (''agree'', JStr []),
                            (''_timestamp'', JNum 1700000100000),
                            (''_formId'', JStr ''membershipForm'')]))
   \<and> localStorage (handleFileUpload good_server
          ((control ''aadharFront'' ''file'' [] False)\<lparr>el_files := [''front.png'']\<rparr>)
          (first_visit [membership_form ''Asha'' [] False])) STORAGE_KEY
     = Some (JSON_stringify (AList.update ''aadharFront'' (JStr ''https://files/front.png'')
               (getFormData (first_visit [membership_form ''Asha'' [] False]))))"
  using file_inputs_in_snapshots
      [of "first_visit [membership_form ''Asha'' [] False]" good_server True
          "(control ''aadharFront'' ''file'' [] False)\<lparr>el_files := [''front.png'']\<rparr>"
          "''front.png''" "[]" "JStr ''https://files/front.png''"]
  by (simp add: model_defs without_files_def)

section \<open>Restoring\<close>

lemma restore_absorbs: "restore_try w = Inl e \<Longrightarrow> restoreSavedData w = w"
  by (simp add: restoreSavedData_def)

lemma restore_unparsable:
  "localStorage w STORAGE_KEY = Some (NotJson s) \<Longrightarrow> restoreSavedData w = w"
  by (simp add: restoreSavedData_def restore_try_def)

lemma restore_no_target:
  assumes "localStorage w STORAGE_KEY = Some (Json v)"
    and "get v ''_formId'' = Inr fid"
    and "getElementById (document w) (to_string (js_or fid (js_of_id (currentFormId w)))) = None"
  shows "restoreSavedData w = w"
  using assms by (simp add: restoreSavedData_def restore_try_def)

lemma restore_filled: "isFormFilled w \<Longrightarrow> restoreSavedData w = w"
  by (simp add: restoreSavedData_def restore_try_def split: option.splits sum.splits)

text \<open>
  Claim C5, as amended.  \<open>restoreSavedData\<close> returns a world for every stored payload: an
  exception inside its \<^verbatim>\<open>try\<close> block is absorbed and nothing has changed.  A stored text that
  does not parse leaves the world as it was, and so does a snapshot whose \<^verbatim>\<open>_formId\<close> (or
  the current form id, when the snapshot has none) names no form of the document.  The
  snapshot's \<^verbatim>\<open>_formId\<close> is not compared with the current form: it selects the form that is
  restored.
\<close>

theorem restore_tolerates_bad_payloads:
  "(restore_try w = Inl e \<longrightarrow> restoreSavedData w = w)
   \<and> (localStorage w STORAGE_KEY = Some (NotJson s) \<longrightarrow> restoreSavedData w = w)
   \<and> (localStorage w STORAGE_KEY = Some (Json v) \<and> get v ''_formId'' = Inr fid
        \<and> getElementById (document w) (to_string (js_or fid (js_of_id (currentFormId w)))) = None
        \<longrightarrow> restoreSavedData w = w)"
  using restore_absorbs restore_unparsable restore_no_target by blast

text \<open>
  The statement of C5 on a page whose stored text is not JSON, and on a page with the update
  form only whose stored snapshot names the membership form.
\<close>

theorem restore_tolerates_bad_payloads_witness:
  "restore_try (page good_server 5 [membership_form [] [] False] [STORAGE_KEY \<mapsto> NotJson ''{broken'']) = Inl SyntaxError
   \<and> restoreSavedData (page good_server 5 [membership_form [] [] False] [STORAGE_KEY \<mapsto> NotJson ''{broken''])
       = page good_server 5 [membership_form [] [] False] [STORAGE_KEY \<mapsto> NotJson ''{broken'']
   \<and> restoreSavedData (stored_page [update_form []]) = stored_page [update_form []]"
  using restore_tolerates_bad_payloads
      [of "page good_server 5 [membership_form [] [] False] [STORAGE_KEY \<mapsto> NotJson ''{broken'']"
          SyntaxError "''{broken''"]
    restore_tolerates_bad_payloads
      [of "stored_page [update_form []]" _ _
          "JObject [(''firstName'', JStr ''Ravi''), (''email'', JStr ''r@x.org''), (''agree'', JStr ''yes''),
                    (''_timestamp'', JNum 1700000000000), (''_formId'', JStr ''membershipForm'')]"
          "JStr ''membershipForm''"]
  by (simp add: model_defs)

text \<open>
  Against claim C5 as stated: the page holds both forms, the service tracks the update
  form, and the stored snapshot carries the id of the membership form.  Restoration is not
  skipped: the membership form is filled from the snapshot.
\<close>

theorem other_form_is_restored:
  "currentFormId (stored_page [membership_form [] [] False, update_form []]) = Some ''updateForm''
   \<and> localStorage (stored_page [membership_form [] [] False, update_form []]) STORAGE_KEY
       = Some (snapshot ''membershipForm'' ''Ravi'' ''r@x.org'')
   \<and> document (restoreSavedData (stored_page [membership_form [] [] False, update_form []]))
       = [membership_form ''Ravi'' ''r@x.org'' True, update_form []]"
  by (simp add: model_defs)


section \<open>Remote sync\<close>

lemma sync_push_failed:
  assumes "w1 = (if truthy (csrfToken w) then w else loadCsrfToken srv w)"
    and "truthy (csrfToken w1)"
    and "push_result (srv (AutoSaveForm fd (csrfToken w1)) (now w)) = Inl e"
  shows "retryCount (syncToServer srv fd w) = Suc (retryCount w)"
    and "Suc (retryCount w) < MAX_RETRIES \<Longrightarrow>
           timers (syncToServer srv fd w)
             = timers w @ [\<lparr>t_id = next_timer w, due = now w + 5000, act = RetrySync fd\<rparr>]
           \<and> notices (syncToServer srv fd w) = notices w"
    and "MAX_RETRIES \<le> Suc (retryCount w) \<Longrightarrow>
           timers (syncToServer srv fd w) = timers w
           \<and> notices (syncToServer srv fd w)
               = notices w @ [''Auto-save failed. Working offline - changes will be saved locally.'']"
  using assms
  by (auto simp: syncToServer_def Let_def setTimeout_def showError_def)

lemma sync_push_succeeded:
  assumes "w1 = (if truthy (csrfToken w) then w else loadCsrfToken srv w)"
    and "truthy (csrfToken w1)"
    and "push_result (srv (AutoSaveForm fd (csrfToken w1)) (now w)) = Inr u"
  shows "retryCount (syncToServer srv fd w) = 0
         \<and> lastSyncTime (syncToServer srv fd w) = Some (now w)
         \<and> timers (syncToServer srv fd w) = timers w"
  using assms by (auto simp: syncToServer_def Let_def)

lemma push_result_failure:
  assumes "r = Rejected \<or> (\<exists>ok data. r = Http ok data \<and> \<not> truthy (property data ''success''))"
  shows "\<exists>e. push_result r = Inl e"
  using assms by (auto simp: push_result_def get_def)

lemma push_result_success:
  assumes "r = Http ok data" and "truthy (property data ''success'')"
  shows "push_result r = Inr ()"
proof -
  from assms(2) have "data \<noteq> JNull" and "data \<noteq> JUndefined"
    by auto
  with assms show ?thesis
    by (simp add: push_result_def get_def)
qed

text \<open>
  Claim C6.  \<open>syncToServer\<close> sends its request (a token is there, or was fetched just
  before).  When the push fails, because the request is rejected (a network error, or an
  answer that cannot be read) or because the answer carries no true \<^verbatim>\<open>success\<close>, \<open>retryCount\<close>
  goes up by one; while the new count is below \<open>MAX_RETRIES\<close> (three) exactly one retry is
  put into the timer queue, due five seconds later, and no notice is shown; from then on
  no retry is scheduled and the working-offline notice is shown.  When the answer carries
  a true \<^verbatim>\<open>success\<close>, \<open>retryCount\<close> is set to zero.  \<open>syncToServer\<close> never touches the storage, and
  \<open>saveFormData\<close> persists the snapshot whatever the server does.
\<close>

theorem retry_ceiling_and_backoff:
  assumes "w1 = (if truthy (csrfToken w) then w else loadCsrfToken srv w)"
    and "truthy (csrfToken w1)"
    and "r = srv (AutoSaveForm fd (csrfToken w1)) (now w)"
  shows
    "(r = Rejected \<or> (\<exists>ok data. r = Http ok data \<and> \<not> truthy (property data ''success'')) \<longrightarrow>
        retryCount (syncToServer srv fd w) = Suc (retryCount w)
        \<and> (Suc (retryCount w) < MAX_RETRIES \<longrightarrow>
             timers (syncToServer srv fd w)
               = timers w @ [\<lparr>t_id = next_timer w, due = now w + 5000, act = RetrySync fd\<rparr>]
             \<and> notices (syncToServer srv fd w) = notices w)
        \<and> (MAX_RETRIES \<le> Suc (retryCount w) \<longrightarrow>
             timers (syncToServer srv fd w) = timers w
             \<and> notices (syncToServer srv fd w)
                 = notices w @ [''Auto-save failed. Working offline - changes will be saved locally.'']))
     \<and> ((\<exists>ok data. r = Http ok data \<and> truthy (property data ''success'')) \<longrightarrow>
          retryCount (syncToServer srv fd w) = 0
          \<and> lastSyncTime (syncToServer srv fd w) = Some (now w)
          \<and> timers (syncToServer srv fd w) = timers w)
     \<and> MAX_RETRIES = 3
     \<and> localStorage (syncToServer srv fd w) = localStorage w
     \<and> (enabled w \<and> \<not> storage_full w \<longrightarrow>
          localStorage (saveFormData srv force w) STORAGE_KEY
            = Some (JSON_stringify (getFormData w)))"
proof -
  have failed: "retryCount (syncToServer srv fd w) = Suc (retryCount w)
        \<and> (Suc (retryCount w) < MAX_RETRIES \<longrightarrow>
             timers (syncToServer srv fd w)
               = timers w @ [\<lparr>t_id = next_timer w, due = now w + 5000, act = RetrySync fd\<rparr>]
             \<and> notices (syncToServer srv fd w) = notices w)
        \<and> (MAX_RETRIES \<le> Suc (retryCount w) \<longrightarrow>
             timers (syncToServer srv fd w) = timers w
             \<and> notices (syncToServer srv fd w)
                 = notices w @ [''Auto-save failed. Working offline - changes will be saved locally.''])"
    if "r = Rejected \<or> (\<exists>ok data. r = Http ok data \<and> \<not> truthy (property data ''success''))"
  proof -
    from push_result_failure [OF that] obtain e where "push_result r = Inl e"
      by blast
    then have e: "push_result (srv (AutoSaveForm fd (csrfToken w1)) (now w)) = Inl e"
      by (simp add: assms(3))
    from sync_push_failed [OF assms(1,2) e] show ?thesis
      by blast
  qed
  have succeeded: "retryCount (syncToServer srv fd w) = 0
          \<and> lastSyncTime (syncToServer srv fd w) = Some (now w)
          \<and> timers (syncToServer srv fd w) = timers w"
    if "\<exists>ok data. r = Http ok data \<and> truthy (property data ''success'')"
  proof -
    from that obtain ok data where "r = Http ok data" and "truthy (property data ''success'')"
      by blast
    then have "push_result r = Inr ()"
      by (rule push_result_success)
    then have "push_result (srv (AutoSaveForm fd (csrfToken w1)) (now w)) = Inr ()"
      by (simp add: assms(3))
    with assms(1,2) show ?thesis
      by (rule sync_push_succeeded)
  qed
  from failed succeeded saveFormData_persists [of w srv force] show ?thesis
    by (simp add: MAX_RETRIES_def)
qed

text \<open>
  The statement of C6 on a first visit that holds a token: the network is down at the
  first push and the retry is scheduled; the server refuses after two earlier failures and
  the notice is shown instead; the server answers with nothing readable; the server
  accepts.
\<close>

theorem retry_ceiling_and_backoff_witness:
  "retryCount (syncToServer offline [] (first_visit [])) = 1
   \<and> timers (syncToServer offline [] (first_visit []))
       = [\<lparr>t_id = 1, due = 1700000105000, act = RetrySync []\<rparr>]
   \<and> notices (syncToServer offline [] (first_visit [])) = []
   \<and> retryCount (syncToServer refusing [] ((first_visit [])\<lparr>retryCount := 2\<rparr>)) = 3
   \<and> timers (syncToServer refusing [] ((first_visit [])\<lparr>retryCount := 2\<rparr>)) = []
   \<and> notices (syncToServer refusing [] ((first_visit [])\<lparr>retryCount := 2\<rparr>))
       = [''Auto-save failed. Working offline - changes will be saved locally.'']
   \<and> retryCount (syncToServer (\<lambda>rq t. Http True JNull) [] (first_visit [])) = 1
   \<and> retryCount (syncToServer good_server [] ((first_visit [])\<lparr>retryCount := 2\<rparr>)) = 0"
proof -
  define w where "w = first_visit []"
  define w' where "w' = w\<lparr>retryCount := 2\<rparr>"
  have w: "csrfToken w = JStr ''token-1''" "retryCount w = 0" "timers w = []" "next_timer w = 1"
    "now w = 1700000100000" "notices w = []"
    by (simp_all add: w_def first_visit_def page_def setupFormListeners_def new_service_def
        loadCsrfToken_def reply_def get_def lookup_def Let_def)
  then have w': "csrfToken w' = JStr ''token-1''" "retryCount w' = 2" "timers w' = []"
    "next_timer w' = 1" "now w' = 1700000100000" "notices w' = []"
    by (simp_all add: w'_def)
  have held: "w = (if truthy (csrfToken w) then w else loadCsrfToken srv w)" "truthy (csrfToken w)"
    "w' = (if truthy (csrfToken w') then w' else loadCsrfToken srv w')" "truthy (csrfToken w')"
    for srv
    by (simp_all add: w w')
  have down: "Rejected = offline (AutoSaveForm [] (csrfToken w)) (now w)"
    by (simp add: offline_def)
  have "Rejected = Rejected
        \<or> (\<exists>ok data. Rejected = Http ok data \<and> \<not> truthy (property data ''success''))"
    by simp
  with retry_ceiling_and_backoff
      [where w = w and ?w1.0 = w and srv = offline and fd = "[]" and r = Rejected
         and force = True, OF held(1,2) down]
  have first: "retryCount (syncToServer offline [] w) = 1"
    "timers (syncToServer offline [] w)
     = [\<lparr>t_id = 1, due = 1700000105000, act = RetrySync []\<rparr>]"
    "notices (syncToServer offline [] w) = []"
    by (simp_all add: w)
  have no: "reply [(''success'', JBool False)] = refusing (AutoSaveForm [] (csrfToken w')) (now w')"
    by (simp add: refusing_def)
  have "reply [(''success'', JBool False)] = Rejected
        \<or> (\<exists>ok data. reply [(''success'', JBool False)] = Http ok data
               \<and> \<not> truthy (property data ''success''))"
    by (intro disjI2 exI [of _ True] exI [of _ "JObject [(''success'', JBool False)]"])
      (simp add: reply_def lookup_def)
  with retry_ceiling_and_backoff
      [where w = w' and ?w1.0 = w' and srv = refusing and fd = "[]"
         and r = "reply [(''success'', JBool False)]" and force = True, OF held(3,4) no]
  have third: "retryCount (syncToServer refusing [] w') = 3"
    "timers (syncToServer refusing [] w') = []"
    "notices (syncToServer refusing [] w')
     = [''Auto-save failed. Working offline - changes will be saved locally.'']"
    by (simp_all add: w')
  have null: "Http True JNull = (\<lambda>rq t. Http True JNull) (AutoSaveForm [] (csrfToken w)) (now w)"
    by simp
  have "Http True JNull = Rejected
        \<or> (\<exists>ok data. Http True JNull = Http ok data \<and> \<not> truthy (property data ''success''))"
    by (intro disjI2 exI [of _ True] exI [of _ JNull]) simp
  with retry_ceiling_and_backoff
      [where w = w and ?w1.0 = w and srv = "\<lambda>rq t. Http True JNull" and fd = "[]"
         and r = "Http True JNull" and force = True, OF held(1,2) null]
  have unreadable: "retryCount (syncToServer (\<lambda>rq t. Http True JNull) [] w) = 1"
    by (simp add: w)
  have yes: "reply [(''success'', JBool True)] = good_server (AutoSaveForm [] (csrfToken w')) (now w')"
    by simp
  have "\<exists>ok data. reply [(''success'', JBool True)] = Http ok data \<and> truthy (property data ''success'')"
    by (intro exI [of _ True] exI [of _ "JObject [(''success'', JBool True)]"])
      (simp add: reply_def lookup_def)
  with retry_ceiling_and_backoff
      [where w = w' and ?w1.0 = w' and srv = good_server and fd = "[]"
         and r = "reply [(''success'', JBool True)]" and force = True, OF held(3,4) yes]
  have accepted: "retryCount (syncToServer good_server [] w') = 0"
    by simp
  from first third unreadable accepted show ?thesis
    by (simp add: w_def w'_def)
qed

text \<open>
  Three refusals in a row on a first visit: the forced save and two retries, five seconds
  apart; after the third the notice is shown and the queue is empty, however long the page
  stays open.
\<close>

lemma three_refusals:
  "retryCount (run_to refusing 1700000200000 refused_once) = 3
   \<and> timers (run_to refusing 1700000200000 refused_once) = []
   \<and> notices (run_to refusing 1700000200000 refused_once)
       = [''Changes saved locally'',
          ''Auto-save failed. Working offline - changes will be saved locally.'']"
  by (simp add: model_defs)

text \<open>
  The same with the network down after the page has loaded: three rejected requests, then
  the notice and an empty queue.
\<close>

lemma three_network_errors:
  "retryCount (run_to offline 1700000200000
                 (saveFormData offline True (first_visit [membership_form ''Asha'' [] False]))) = 3
   \<and> timers (run_to offline 1700000200000
                 (saveFormData offline True (first_visit [membership_form ''Asha'' [] False]))) = []
   \<and> notices (run_to offline 1700000200000
                 (saveFormData offline True (first_visit [membership_form ''Asha'' [] False])))
       = [''Changes saved locally'',
          ''Auto-save failed. Working offline - changes will be saved locally.'']"
  by (simp add: model_defs)

text \<open>
  Claim C8.  A push request is sent only with a token: the one the service holds or,
  when it holds none, the one that a token request sent just before has brought.  When
  the service holds none and that token request fails as well, no push is sent and
  \<open>retryCount\<close>, the timer queue, the notices and \<open>lastSyncTime\<close> stay as they were.  The
  token that \<open>loadCsrfToken\<close> leaves in the service is the one it found there or the one the
  token endpoint has just issued.
\<close>

theorem push_needs_token:
  "(truthy (csrfToken w) \<longrightarrow>
      requests (syncToServer srv fd w) = requests w @ [AutoSaveForm fd (csrfToken w)])
   \<and> (\<not> truthy (csrfToken w) \<and> truthy (csrfToken (loadCsrfToken srv w)) \<longrightarrow>
        requests (syncToServer srv fd w)
          = requests w @ [GetCsrfToken, AutoSaveForm fd (csrfToken (loadCsrfToken srv w))])
   \<and> (\<not> truthy (csrfToken w) \<and> \<not> truthy (csrfToken (loadCsrfToken srv w)) \<longrightarrow>
        requests (syncToServer srv fd w) = requests w @ [GetCsrfToken]
        \<and> retryCount (syncToServer srv fd w) = retryCount w
        \<and> timers (syncToServer srv fd w) = timers w
        \<and> notices (syncToServer srv fd w) = notices w
        \<and> lastSyncTime (syncToServer srv fd w) = lastSyncTime w)
   \<and> (csrfToken (loadCsrfToken srv w) = csrfToken w
        \<or> (\<exists>ok data. srv GetCsrfToken (now w) = Http ok data
               \<and> truthy (property data ''success'')
               \<and> csrfToken (loadCsrfToken srv w) = property data ''csrfToken''))"
proof -
  have issued: "csrfToken (loadCsrfToken srv w) = csrfToken w
        \<or> (\<exists>ok data. srv GetCsrfToken (now w) = Http ok data
               \<and> truthy (property data ''success'')
               \<and> csrfToken (loadCsrfToken srv w) = property data ''csrfToken'')"
    by (cases "srv GetCsrfToken (now w)")
      (auto simp: loadCsrfToken_def Let_def get_def split: if_splits)
  show ?thesis
    using issued
    by (simp add: syncToServer_def Let_def setTimeout_def showError_def split: sum.splits)
qed

text \<open>
  The statement of C8 on a first visit without network, where the token request of the
  constructor has failed: a sync that cannot fetch a token either sends no push and keeps
  \<open>retryCount\<close>; a sync that can, pushes with the fetched token; with a token in hand the push
  goes out at once.
\<close>

theorem push_needs_token_witness:
  "requests cut_off = [GetCsrfToken]
   \<and> csrfToken cut_off = JNull
   \<and> requests (syncToServer offline [] cut_off) = [GetCsrfToken, GetCsrfToken]
   \<and> retryCount (syncToServer offline [] cut_off) = retryCount cut_off
   \<and> requests (syncToServer good_server [] cut_off)
       = [GetCsrfToken, GetCsrfToken, AutoSaveForm [] (JStr ''token-1'')]
   \<and> requests (syncToServer offline [] (first_visit []))
       = [GetCsrfToken, AutoSaveForm [] (JStr ''token-1'')]"
  using push_needs_token [of cut_off offline "[]"] push_needs_token [of cut_off good_server "[]"]
    push_needs_token [of "first_visit []" offline "[]"]
  by (simp add: model_defs)

section \<open>Letting time pass\<close>

lemma filter_remove1_out: "\<not> P x \<Longrightarrow> filter P (remove1 x xs) = filter P xs"
  by (induction xs) auto

lemma filter_remove1_single: "filter P xs = [x] \<Longrightarrow> filter P (remove1 x xs) = []"
proof (induction xs)
  case Nil
  then show ?case by simp
next
  case (Cons y ys)
  show ?case
  proof (cases "y = x")
    case True
    have "P x"
      using Cons_eq_filterD [OF Cons.prems [symmetric]] by blast
    with True Cons.prems show ?thesis
      by simp
  next
    case False
    with Cons.prems have "\<not> P y" and "filter P ys = [x]"
      by (auto split: if_splits)
    with Cons.IH False show ?thesis
      by simp
  qed
qed

lemma pending_saves_cong: "timers w' = timers w \<Longrightarrow> pending_saves w' = pending_saves w"
  by (simp add: pending_saves_def)

lemma pending_remove1_out:
  "\<not> is_save tm \<Longrightarrow> pending_saves (w\<lparr>timers := remove1 tm (timers w)\<rparr>) = pending_saves w"
  by (simp add: pending_saves_def filter_remove1_out)

lemma pending_remove1_single:
  "pending_saves w = [s] \<Longrightarrow> pending_saves (w\<lparr>timers := remove1 s (timers w)\<rparr>) = []"
  by (simp add: pending_saves_def filter_remove1_single)

lemma pending_single:
  assumes "pending_saves w = [s]"
  shows "is_save s" and "s \<in> set (timers w)"
    and "tm \<in> set (timers w) \<Longrightarrow> is_save tm \<Longrightarrow> tm = s"
proof -
  have "set (pending_saves w) = {s}"
    using assms by simp
  then have mem: "\<And>x. x \<in> set (timers w) \<and> is_save x \<longleftrightarrow> x = s"
    by (auto simp: pending_saves_def)
  from mem [of s] show "is_save s" and "s \<in> set (timers w)"
    by simp_all
  from mem [of tm] show "tm \<in> set (timers w) \<Longrightarrow> is_save tm \<Longrightarrow> tm = s"
    by simp
qed

lemma pending_syncToServer [simp]: "pending_saves (syncToServer srv fd w) = pending_saves w"
  by (simp add: pending_saves_def syncToServer_def Let_def setTimeout_def showError_def is_save_def
      split: sum.splits)

lemma pending_saveFormData [simp]: "pending_saves (saveFormData srv force w) = pending_saves w"
proof -
  have "pending_saves (saveToLocalStorage d (w\<lparr>saves := x\<rparr>)) = pending_saves w" for d x
    by (simp add: pending_saves_def)
  then show ?thesis
    by (simp add: saveFormData_def Let_def)
qed

lemma same_debounce_refl [simp]: "same_debounce w w"
  by (simp add: same_debounce_def)

lemma same_debounce_trans:
  "same_debounce w w' \<Longrightarrow> same_debounce w' w'' \<Longrightarrow> same_debounce w w''"
  by (simp add: same_debounce_def)

lemma fire_retry:
  assumes "\<not> is_save tm"
  shows "same_debounce w (fire srv tm (w\<lparr>timers := remove1 tm (timers w)\<rparr>))"
proof -
  from assms obtain fd where "act tm = RetrySync fd"
    by (cases "act tm") (simp_all add: is_save_def)
  then show ?thesis
    using assms by (simp add: fire_def same_debounce_def pending_remove1_out)
qed

lemma fire_all_others:
  "\<forall>tm \<in> set tms. tm \<notin> set (pending_saves w) \<Longrightarrow> same_debounce w (fire_all srv tms w)"
proof (induction tms arbitrary: w)
  case Nil
  then show ?case by simp
next
  case (Cons tm tms)
  define w' where
    "w' = (if tm \<in> set (timers w) then fire srv tm (w\<lparr>timers := remove1 tm (timers w)\<rparr>) else w)"
  have step: "same_debounce w w'"
  proof (cases "tm \<in> set (timers w)")
    case True
    with Cons.prems have "\<not> is_save tm"
      by (auto simp: pending_saves_def)
    then show ?thesis
      using True by (simp add: w'_def fire_retry)
  next
    case False
    then show ?thesis by (simp add: w'_def)
  qed
  then have "\<forall>tm \<in> set tms. tm \<notin> set (pending_saves w')"
    using Cons.prems by (simp add: same_debounce_def)
  then have "same_debounce w' (fire_all srv tms w')"
    by (rule Cons.IH)
  with step have "same_debounce w (fire_all srv tms w')"
    by (rule same_debounce_trans)
  then show ?case
    by (simp add: w'_def)
qed

lemma fire_all_save:
  assumes "pending_saves w = [s]" and "s \<in> set tms" and "enabled w"
  shows "pending_saves (fire_all srv tms w) = [] \<and> saves (fire_all srv tms w) = saves w @ [now w]
         \<and> enabled (fire_all srv tms w) \<and> saveTimer (fire_all srv tms w) = saveTimer w
         \<and> now (fire_all srv tms w) = now w"
  using assms
proof (induction tms arbitrary: w)
  case Nil
  then show ?case by simp
next
  case (Cons tm tms)
  have s: "is_save s" "s \<in> set (timers w)"
    using pending_single(1,2) [OF Cons.prems(1)] by simp_all
  show ?case
  proof (cases "tm = s")
    case True
    define w' where "w' = fire srv s (w\<lparr>timers := remove1 s (timers w)\<rparr>)"
    have act: "act s = SaveFormData"
      using s(1) by (simp add: is_save_def)
    have w': "pending_saves w' = []" "saves w' = saves w @ [now w]" "enabled w'"
      "saveTimer w' = saveTimer w" "now w' = now w"
      using Cons.prems(1,3) act
      by (simp_all add: w'_def fire_def saveFormData_saves pending_remove1_single)
    then have "same_debounce w' (fire_all srv tms w')"
      by (intro fire_all_others) simp
    moreover have "fire_all srv (tm # tms) w = fire_all srv tms w'"
      using True s(2) by (simp add: w'_def)
    ultimately show ?thesis
      using w' by (simp add: same_debounce_def)
  next
    case False
    define w' where
      "w' = (if tm \<in> set (timers w) then fire srv tm (w\<lparr>timers := remove1 tm (timers w)\<rparr>) else w)"
    have "same_debounce w w'"
    proof (cases "tm \<in> set (timers w)")
      case True
      with False have "\<not> is_save tm"
        using pending_single(3) [OF Cons.prems(1)] by blast
      then show ?thesis
        using True by (simp add: w'_def fire_retry)
    next
      case False
      then show ?thesis by (simp add: w'_def)
    qed
    then have eq: "pending_saves w' = [s]" "enabled w'" "saves w' = saves w" "now w' = now w"
      "saveTimer w' = saveTimer w"
      using Cons.prems by (simp_all add: same_debounce_def)
    from False Cons.prems(2) have "s \<in> set tms"
      by simp
    moreover have "fire_all srv (tm # tms) w = fire_all srv tms w'"
      by (simp add: w'_def)
    ultimately show ?thesis
      using Cons.IH [OF eq(1) _ eq(2)] eq by simp
  qed
qed


lemma fold_min_le: "fold min ds b \<le> (b::nat)"
proof (induction ds arbitrary: b)
  case Nil
  then show ?case by simp
next
  case (Cons d ds)
  have "fold min ds (min d b) \<le> min d b"
    by (rule Cons.IH)
  then show ?case by simp
qed

lemma fold_min_le_member: "d \<in> set ds \<Longrightarrow> fold min ds b \<le> (d::nat)"
proof (induction ds arbitrary: b)
  case Nil
  then show ?case by simp
next
  case (Cons x ds)
  show ?case
  proof (cases "d = x")
    case True
    have "fold min ds (min x b) \<le> min x b"
      by (rule fold_min_le)
    with True show ?thesis by simp
  next
    case False
    with Cons.prems have "d \<in> set ds" by simp
    then have "fold min ds (min x b) \<le> d"
      by (rule Cons.IH)
    then show ?thesis by simp
  qed
qed

lemma fold_min_above: "c < b \<Longrightarrow> \<forall>d \<in> set ds. c < d \<Longrightarrow> c < fold min ds (b::nat)"
  by (induction ds arbitrary: b) auto

lemma next_stop_bounds:
  assumes "c < T"
  shows "c < next_stop T c tms" and "next_stop T c tms \<le> T"
  using assms by (simp_all add: next_stop_def fold_min_above fold_min_le)

lemma next_stop_le_due: "tm \<in> set tms \<Longrightarrow> c < due tm \<Longrightarrow> next_stop T c tms \<le> due tm"
  by (simp add: next_stop_def fold_min_le_member)

text \<open>As long as no pending save becomes due, letting time pass changes nothing about
  the debounce.\<close>

lemma run_to_quiet:
  "\<forall>tm \<in> set (pending_saves w). T < due tm \<Longrightarrow>
   pending_saves (run_to srv T w) = pending_saves w \<and> saves (run_to srv T w) = saves w
   \<and> enabled (run_to srv T w) = enabled w \<and> saveTimer (run_to srv T w) = saveTimer w
   \<and> now (run_to srv T w) = max T (now w)"
proof (induction srv T w rule: run_to.induct)
  case (1 srv T w)
  show ?case
  proof (cases "T \<le> now w")
    case True
    then show ?thesis
      by (simp add: run_to.simps [of srv T w] max_def)
  next
    case False
    define c where "c = next_stop T (now w) (timers w)"
    define w1 where "w1 = w\<lparr>now := c\<rparr>"
    define w2 where
      "w2 = fire_all srv (sort_key due (filter (\<lambda>tm. due tm \<le> c) (timers w1))) w1"
    from False have c: "now w < c" "c \<le> T"
      using next_stop_bounds [of "now w" T "timers w"] by (simp_all add: c_def)
    have w1: "pending_saves w1 = pending_saves w"
      by (simp add: w1_def pending_saves_def)
    have "\<forall>tm \<in> set (sort_key due (filter (\<lambda>tm. due tm \<le> c) (timers w1))).
            tm \<notin> set (pending_saves w1)"
      using "1.prems" c(2) by (auto simp: w1)
    then have "same_debounce w1 w2"
      unfolding w2_def by (rule fire_all_others)
    then have w2: "pending_saves w2 = pending_saves w" "saves w2 = saves w"
      "enabled w2 = enabled w" "saveTimer w2 = saveTimer w"
      by (simp_all add: same_debounce_def w1) (simp_all add: w1_def)
    have w3: "pending_saves (w2\<lparr>now := c\<rparr>) = pending_saves w"
      using w2(1) by (simp add: pending_saves_def)
    with "1.prems" have quiet: "\<forall>tm \<in> set (pending_saves (w2\<lparr>now := c\<rparr>)). T < due tm"
      by simp
    have unfold: "run_to srv T w = run_to srv T (w2\<lparr>now := c\<rparr>)"
      using False by (simp add: run_to.simps [of srv T w] Let_def c_def w1_def w2_def)
    from "1.IH" [OF False c_def w1_def w2_def quiet] w2 w3 c show ?thesis
      by (simp add: unfold max_def)
  qed
qed

text \<open>A pending save runs exactly at its due time, and only once.\<close>

lemma run_to_fires:
  "pending_saves w = [s] \<Longrightarrow> enabled w \<Longrightarrow> now w < due s \<Longrightarrow> due s \<le> T \<Longrightarrow>
   saves (run_to srv T w) = saves w @ [due s] \<and> pending_saves (run_to srv T w) = []
   \<and> enabled (run_to srv T w) \<and> saveTimer (run_to srv T w) = saveTimer w
   \<and> now (run_to srv T w) = T"
proof (induction srv T w rule: run_to.induct)
  case (1 srv T w)
  from "1.prems" have late: "\<not> T \<le> now w"
    by simp
  define c where "c = next_stop T (now w) (timers w)"
  define w1 where "w1 = w\<lparr>now := c\<rparr>"
  define due_now where "due_now = sort_key due (filter (\<lambda>tm. due tm \<le> c) (timers w1))"
  define w2 where "w2 = fire_all srv due_now w1"
  have s: "s \<in> set (timers w)"
    using pending_single(2) [OF "1.prems"(1)] .
  from late have c: "now w < c" "c \<le> T"
    using next_stop_bounds [of "now w" T "timers w"] by (simp_all add: c_def)
  have c_due: "c \<le> due s"
    unfolding c_def using s "1.prems"(3) by (rule next_stop_le_due)
  have w1: "pending_saves w1 = [s]" "enabled w1" "saves w1 = saves w" "saveTimer w1 = saveTimer w"
    "now w1 = c"
    using "1.prems"(1,2) by (simp_all add: w1_def pending_saves_def)
  have unfold: "run_to srv T w = run_to srv T (w2\<lparr>now := c\<rparr>)"
    using late by (simp add: run_to.simps [of srv T w] Let_def c_def w1_def w2_def due_now_def)
  show ?case
  proof (cases "c = due s")
    case True
    have "s \<in> set due_now"
      using s True by (simp add: due_now_def w1_def)
    from fire_all_save [OF w1(1) this w1(2), of srv]
    have w2: "pending_saves w2 = []" "saves w2 = saves w @ [due s]" "enabled w2"
      "saveTimer w2 = saveTimer w"
      using w1 True by (simp_all add: w2_def)
    have "\<forall>tm \<in> set (pending_saves (w2\<lparr>now := c\<rparr>)). T < due tm"
      using w2(1) by (simp add: pending_saves_def)
    from run_to_quiet [OF this, of srv] w2 c show ?thesis
      by (simp add: unfold pending_saves_def max_def)
  next
    case False
    with c_due have before: "c < due s"
      by simp
    have "\<forall>tm \<in> set due_now. tm \<notin> set (pending_saves w1)"
      using before by (auto simp: w1(1) due_now_def)
    then have "same_debounce w1 w2"
      unfolding w2_def by (rule fire_all_others)
    then have w2: "pending_saves w2 = [s]" "saves w2 = saves w" "enabled w2"
      "saveTimer w2 = saveTimer w"
      using w1 by (simp_all add: same_debounce_def)
    have w3: "pending_saves (w2\<lparr>now := c\<rparr>) = [s]" "enabled (w2\<lparr>now := c\<rparr>)"
      "now (w2\<lparr>now := c\<rparr>) < due s"
      using w2 before by (simp_all add: pending_saves_def)
    from "1.IH" [OF late c_def w1_def, of w2, unfolded due_now_def [symmetric], OF w2_def w3 "1.prems"(4)]
      w2 show ?thesis
      by (simp add: unfold)
  qed
qed


section \<open>Debounce\<close>

lemma handleFormChange_arms:
  assumes "enabled w" and "pending_saves w = [] \<or> (\<exists>d. armed d w)"
  shows "armed (now w + 2000) (handleFormChange w)"
    and "saves (handleFormChange w) = saves w"
    and "now (handleFormChange w) = now w"
proof -
  have rest: "filter is_save (filter (\<lambda>tm. t_id tm \<noteq> i) (timers w)) = []"
    if "saveTimer w = Some i" for i
  proof -
    have "filter is_save (filter (\<lambda>tm. t_id tm \<noteq> i) (timers w))
          = filter (\<lambda>tm. t_id tm \<noteq> i) (pending_saves w)"
      by (simp add: pending_saves_def conj_commute)
    also have "\<dots> = []"
      using assms(2) that by (auto simp: armed_def)
    finally show ?thesis .
  qed
  have none: "pending_saves w = []" if "saveTimer w = None"
    using assms(2) that by (auto simp: armed_def)
  show "armed (now w + 2000) (handleFormChange w)"
    using assms(1) rest none
    by (cases "saveTimer w")
      (auto simp: armed_def handleFormChange_def setTimeout_def clearTimeout_def
        pending_saves_def is_save_def)
  show "saves (handleFormChange w) = saves w" and "now (handleFormChange w) = now w"
    by (simp_all add: handleFormChange_def setTimeout_def clearTimeout_def split: option.splits)
qed

lemma armed_run_to:
  assumes "armed d w" and "u < d"
  shows "armed d (run_to srv u w)" and "saves (run_to srv u w) = saves w"
    and "now (run_to srv u w) = max u (now w)"
proof -
  from assms(1) obtain s where s: "pending_saves w = [s]" "due s = d"
    by (auto simp: armed_def)
  with assms(2) have "\<forall>tm \<in> set (pending_saves w). u < due tm"
    by simp
  from run_to_quiet [OF this, of srv] assms(1)
  show "armed d (run_to srv u w)" and "saves (run_to srv u w) = saves w"
    and "now (run_to srv u w) = max u (now w)"
    by (simp_all add: armed_def)
qed

lemma activity_armed:
  "armed (t + 2000) w \<Longrightarrow> now w = t \<Longrightarrow> spaced t us \<Longrightarrow>
   armed (last (t # us) + 2000) (activity srv us w)
   \<and> now (activity srv us w) = last (t # us) \<and> saves (activity srv us w) = saves w"
proof (induction us arbitrary: t w)
  case Nil
  then show ?case by simp
next
  case (Cons u us)
  define w' where "w' = run_to srv u w"
  from Cons.prems have u: "t \<le> u" "u < t + 2000" "spaced u us"
    by simp_all
  from armed_run_to [OF Cons.prems(1) u(2), of srv] Cons.prems(2) u(1)
  have w': "armed (t + 2000) w'" "saves w' = saves w" "now w' = u"
    by (simp_all add: w'_def max_def)
  then have "enabled w'"
    by (simp add: armed_def)
  from handleFormChange_arms [OF this] w'
  have "armed (u + 2000) (handleFormChange w')" "saves (handleFormChange w') = saves w"
    "now (handleFormChange w') = u"
    by auto
  from Cons.IH [OF this(1,3) u(3)] this(2) show ?case
    by (simp add: w'_def)
qed

text \<open>
  Claim C2.  Auto-save is on and no debounced save is pending when a burst of field
  activity starts; each call comes less than two seconds after the one before.  Then
  after the burst exactly one debounced save is pending, due two seconds after the last
  call, and whatever else is in the timer queue, \<open>saveFormData\<close> runs for this burst exactly
  once, at that moment and not before.
\<close>

theorem debounce_coalesces:
  assumes "enabled w" and "pending_saves w = []" and "now w \<le> t" and "spaced t ts"
  shows "armed (last (t # ts) + 2000) (activity srv (t # ts) w)
         \<and> saves (run_to srv T (activity srv (t # ts) w))
             = saves w @ (if last (t # ts) + 2000 \<le> T then [last (t # ts) + 2000] else [])"
proof -
  define w0 where "w0 = run_to srv t w"
  have "\<forall>tm \<in> set (pending_saves w). t < due tm"
    using assms(2) by simp
  from run_to_quiet [OF this, of srv] assms(1,2,3)
  have w0: "enabled w0" "pending_saves w0 = []" "saves w0 = saves w" "now w0 = t"
    by (simp_all add: w0_def max_def)
  from handleFormChange_arms [OF w0(1)] w0
  have first: "armed (t + 2000) (handleFormChange w0)" "saves (handleFormChange w0) = saves w"
    "now (handleFormChange w0) = t"
    by auto
  define w' where "w' = activity srv (t # ts) w"
  from activity_armed [OF first(1,3) assms(4), of srv] first(2)
  have w': "armed (last (t # ts) + 2000) w'" "now w' = last (t # ts)" "saves w' = saves w"
    by (simp_all add: w'_def w0_def)
  then obtain s where s: "pending_saves w' = [s]" "due s = last (t # ts) + 2000" "enabled w'"
    by (auto simp: armed_def)
  have "saves (run_to srv T w')
        = saves w @ (if last (t # ts) + 2000 \<le> T then [last (t # ts) + 2000] else [])"
  proof (cases "last (t # ts) + 2000 \<le> T")
    case True
    from run_to_fires [OF s(1,3), where T = T and srv = srv] s(2) w'(2,3) True show ?thesis
      by simp
  next
    case False
    from armed_run_to(2) [OF w'(1), where u = T and srv = srv] w'(3) False show ?thesis
      by simp
  qed
  with w'(1) show ?thesis
    by (simp add: w'_def)
qed

text \<open>
  The statement of C2 on a first visit: three changes within two and a half seconds, one
  save, two seconds after the third.
\<close>

theorem debounce_coalesces_witness:
  "armed 1700000104500
     (activity good_server [1700000100000, 1700000101000, 1700000102500]
        (first_visit [membership_form ''Asha'' [] False]))
   \<and> saves (run_to good_server 1700000110000
              (activity good_server [1700000100000, 1700000101000, 1700000102500]
                 (first_visit [membership_form ''Asha'' [] False])))
       = [1700000104500]
   \<and> saves (run_to good_server 1700000104499
              (activity good_server [1700000100000, 1700000101000, 1700000102500]
                 (first_visit [membership_form ''Asha'' [] False])))
       = []"
  using debounce_coalesces
      [of "first_visit [membership_form ''Asha'' [] False]" 1700000100000
          "[1700000101000, 1700000102500]" good_server 1700000110000]
    debounce_coalesces
      [of "first_visit [membership_form ''Asha'' [] False]" 1700000100000
          "[1700000101000, 1700000102500]" good_server 1700000104499]
  by (simp add: first_visit_def page_def setupFormListeners_def new_service_def pending_saves_def)

text \<open>
  Claim C9, as amended.  A forced save (\<open>saveFormData(true)\<close>, which is what the
  \<^verbatim>\<open>beforeunload\<close> listener calls) saves at once and leaves the pending debounced save and
  \<open>saveTimer\<close> as they are: if the page stays open, the debounced save still runs at its due
  time, so the same changes are saved twice.
\<close>

theorem forced_save_keeps_timer:
  assumes "enabled w" and "pending_saves w = [s]" and "now w < due s" and "due s \<le> T"
  shows "pending_saves (saveFormData srv True w) = [s]
         \<and> saveTimer (saveFormData srv True w) = saveTimer w
         \<and> saves (saveFormData srv True w) = saves w @ [now w]
         \<and> saves (run_to srv T (saveFormData srv True w)) = saves w @ [now w, due s]
         \<and> (hasUnsavedChanges w \<longrightarrow>
              saves (run_to srv T (fst (on_beforeunload srv w))) = saves w @ [now w, due s])"
proof -
  define w' where "w' = saveFormData srv True w"
  have w': "pending_saves w' = [s]" "enabled w'" "now w' < due s" "saves w' = saves w @ [now w]"
    "saveTimer w' = saveTimer w"
    using assms(1,2,3) by (simp_all add: w'_def saveFormData_saves)
  from run_to_fires [OF w'(1,2,3) assms(4), of srv] w'
  show ?thesis
    by (simp add: w'_def [symmetric] on_beforeunload_def)
qed


text \<open>
  The statement of C9 on a page with a change made half a second ago: the forced save of
  the \<^verbatim>\<open>beforeunload\<close> listener, and the debounced save one and a half seconds later.
\<close>

theorem forced_save_keeps_timer_witness:
  "hasUnsavedChanges typing_page
   \<and> pending_saves (saveFormData good_server True typing_page)
       = [\<lparr>t_id = 1, due = 1700000102000, act = SaveFormData\<rparr>]
   \<and> saves (run_to good_server 1700000102000 (saveFormData good_server True typing_page))
       = [1700000100500, 1700000102000]"
proof -
  have page: "enabled typing_page" "now typing_page = 1700000100500" "saves typing_page = []"
    "pending_saves typing_page = [\<lparr>t_id = 1, due = 1700000102000, act = SaveFormData\<rparr>]"
    "hasUnsavedChanges typing_page"
    by (simp_all add: model_defs pending_saves_def is_save_def)
  from forced_save_keeps_timer
      [of typing_page "\<lparr>t_id = 1, due = 1700000102000, act = SaveFormData\<rparr>" 1700000102000
          good_server]
    page
  show ?thesis
    by simp
qed

text \<open>
  Against claim C9 as stated: a field is changed, half a second later the \<^verbatim>\<open>beforeunload\<close>
  listener forces a save, and the visitor stays on the page.  The debounce timer is still
  pending after the forced save and saves a second time when the two seconds are over.
\<close>

theorem flush_then_second_save:
  "snd (on_beforeunload good_server typing_page)
   \<and> pending_saves (fst (on_beforeunload good_server typing_page))
       = [\<lparr>t_id = 1, due = 1700000102000, act = SaveFormData\<rparr>]
   \<and> saves (run_to good_server 1700000102000 (fst (on_beforeunload good_server typing_page)))
       = [1700000100500, 1700000102000]"
  by (simp add: model_defs pending_saves_def is_save_def)

section \<open>Round trip\<close>

lemma collect_step:
  "collect (e # es) fd
   = collect es (if captured e then AList.update (key_of e) (capture e) fd else fd)"
  by (auto simp: captured_def capture_def is_check_def)

lemma map_of_collect:
  "map_of (collect es fd) k = (case last_val k es of Some v \<Rightarrow> Some v | None \<Rightarrow> map_of fd k)"
proof (induction es arbitrary: fd)
  case Nil
  then show ?case by simp
next
  case (Cons e es)
  show ?case
    unfolding collect_step Cons.IH
    by (simp add: AList.update_conv' split: option.splits)
qed

lemma restore_elements_object:
  "restore_elements (JObject al) es = Inr (map (restored al) es)"
  by (induction es) (simp_all add: restore_element_def restored_def Let_def)

lemma control_update [simp]:
  "is_check (e\<lparr>el_checked := c\<rparr>) = is_check e"
  "is_check (e\<lparr>el_value := v\<rparr>) = is_check e"
  "key_of (e\<lparr>el_checked := c\<rparr>) = key_of e"
  "key_of (e\<lparr>el_value := v\<rparr>) = key_of e"
  "captured (e\<lparr>el_checked := c\<rparr>) = captured e"
  "captured (e\<lparr>el_value := v\<rparr>) = captured e"
  by (simp_all add: is_check_def key_of_def captured_def)

lemma restored_keeps [simp]:
  "key_of (restored al e) = key_of e"
  "captured (restored al e) = captured e"
  "is_check (restored al e) = is_check e"
  by (simp_all add: restored_def)

lemma same_control_keeps:
  assumes "same_control e e'"
  shows "key_of e' = key_of e" and "captured e' = captured e" and "is_check e' = is_check e"
  using assms by (simp_all add: same_control_def key_of_def captured_def is_check_def)

lemma restored_capture:
  assumes "same_control e e'" and "captured e" and "map_of al (key_of e) = Some (capture e)"
  shows "capture (restored al e') = capture e"
proof -
  note keeps = same_control_keeps [OF assms(1)]
  have "(key_of e, capture e) \<in> set al"
    using assms(3) by (rule map_of_SomeD)
  then have "fst (key_of e, capture e) \<in> fst ` set al"
    by (rule imageI)
  then have present: "key_of e' \<in> fst ` set al"
    by (simp add: keeps(1))
  have stored: "lookup al (key_of e') = capture e"
    using assms(3) by (simp add: lookup_def keeps(1))
  show ?thesis
  proof (cases "is_check e")
    case True
    then have check: "is_check e'"
      by (simp add: keeps(3))
    from True have val: "el_value e' = el_value e"
      using assms(1) by (simp add: same_control_def)
    have "restored al e' = e'\<lparr>el_checked := (capture e = JStr (el_value e))\<rparr>"
      using present check stored val by (simp add: restored_def)
    then have "capture (restored al e')
               = JStr (if capture e = JStr (el_value e) then el_value e else [])"
      using check val by (simp add: capture_def)
    also have "\<dots> = capture e"
      using True by (simp add: capture_def)
    finally show ?thesis .
  next
    case False
    then have check: "\<not> is_check e'"
      by (simp add: keeps(3))
    have nofile: "el_type e' \<noteq> ''file''"
      using assms(1,2) by (simp add: captured_def same_control_def)
    have val: "capture e = JStr (el_value e)"
      using False by (simp add: capture_def)
    have "restored al e' = e'\<lparr>el_value := to_string (js_or (JStr (el_value e)) (JStr []))\<rparr>"
      using present check nofile stored val by (simp add: restored_def)
    also have "to_string (js_or (JStr (el_value e)) (JStr [])) = el_value e"
      by (simp add: js_or_def)
    finally have "capture (restored al e') = JStr (el_value e)"
      using check by (simp add: capture_def)
    with val show ?thesis
      by simp
  qed
qed

lemma last_val_none:
  "list_all2 same_control es es' \<Longrightarrow>
   (last_val k (map (restored al) es') = None) = (last_val k es = None)"
proof (induction rule: list_all2_induct)
  case Nil
  then show ?case by simp
next
  case (Cons e es e' es')
  note keeps = same_control_keeps [OF Cons.hyps(1)]
  show ?case
  proof (cases "last_val k es")
    case None
    with Cons.IH have "last_val k (map (restored al) es') = None"
      by simp
    with None show ?thesis
      by (simp add: keeps(1,2))
  next
    case (Some v)
    with Cons.IH obtain v' where "last_val k (map (restored al) es') = Some v'"
      by auto
    with Some show ?thesis
      by simp
  qed
qed

lemma last_val_restored:
  "list_all2 same_control es es' \<Longrightarrow> map_of al k = last_val k es \<Longrightarrow>
   last_val k (map (restored al) es') = last_val k es"
proof (induction rule: list_all2_induct)
  case Nil
  then show ?case by simp
next
  case (Cons e es e' es')
  note keeps = same_control_keeps [OF Cons.hyps(1)]
  show ?case
  proof (cases "last_val k es")
    case (Some v)
    with Cons.prems have "map_of al k = last_val k es"
      by simp
    then have "last_val k (map (restored al) es') = last_val k es"
      by (rule Cons.IH)
    with Some show ?thesis
      by simp
  next
    case None
    then have tail: "last_val k (map (restored al) es') = None"
      using last_val_none [OF Cons.hyps(2)] by simp
    show ?thesis
    proof (cases "captured e \<and> key_of e = k")
      case True
      with None Cons.prems have "map_of al (key_of e) = Some (capture e)"
        by simp
      moreover from True have "captured e"
        by simp
      ultimately have "capture (restored al e') = capture e"
        using Cons.hyps(1) by (intro restored_capture)
      with True None tail show ?thesis
        by (simp add: keeps(1,2))
    next
      case False
      with None tail show ?thesis
        by (auto simp: keeps(1,2))
    qed
  qed
qed

lemma fields_getFormData:
  assumes "getElementById (document w) (to_string (js_of_id (currentFormId w))) = Some f"
  shows "k \<notin> {''_timestamp'', ''_formId''} \<Longrightarrow> map_of (getFormData w) k = last_val k (elements f)"
    and "fields (getFormData w) = (\<lambda>k. last_val k (elements f)) |` (- {''_timestamp'', ''_formId''})"
proof -
  show *: "map_of (getFormData w) k = last_val k (elements f)"
    if "k \<notin> {''_timestamp'', ''_formId''}" for k
    using assms that
    by (simp add: getFormData_def AList.update_conv' map_of_collect split: option.splits)
  show "fields (getFormData w) = (\<lambda>k. last_val k (elements f)) |` (- {''_timestamp'', ''_formId''})"
  proof
    fix k
    show "fields (getFormData w) k
          = ((\<lambda>k. last_val k (elements f)) |` (- {''_timestamp'', ''_formId''})) k"
      using * [of k] by (cases "k \<in> {''_timestamp'', ''_formId''}") (simp_all add: fields_def)
  qed
qed

lemma js_or_same: "js_or a a = a"
  by (simp add: js_or_def)

lemma getElementById_id: "getElementById doc i = Some f \<Longrightarrow> form_id f = i"
  by (auto simp: getElementById_def find_Some_iff)

lemma getElementById_put_form:
  "getElementById doc i = Some g \<Longrightarrow> form_id f = i \<Longrightarrow> getElementById (put_form f doc) i = Some f"
  by (induction doc) (auto simp: getElementById_def split: if_splits)

lemma mark_uploaded_frame [simp]:
  "now (mark_uploaded fd w) = now w"
  "document (mark_uploaded fd w) = document w"
  "currentFormId (mark_uploaded fd w) = currentFormId w"
  "localStorage (mark_uploaded fd w) = localStorage w"
  by (simp_all add: mark_uploaded_def upload_slots_def)


lemma last_val_string: "last_val k es = Some x \<Longrightarrow> \<exists>v. x = JStr v"
  by (induction es) (auto simp: capture_def split: option.splits if_splits)

lemma restored_control:
  assumes "map_of d (key_of e) = Some x"
  shows "is_check e \<Longrightarrow> el_checked (restored d e) = (x = JStr (el_value e))"
    and "\<not> is_check e \<Longrightarrow> el_type e \<noteq> ''file'' \<Longrightarrow> x = JStr v \<Longrightarrow> el_value (restored d e) = v"
proof -
  have "(key_of e, x) \<in> set d"
    using assms by (rule map_of_SomeD)
  then have "fst (key_of e, x) \<in> fst ` set d"
    by (rule imageI)
  then have present: "key_of e \<in> fst ` set d"
    by simp
  have stored: "lookup d (key_of e) = x"
    using assms by (simp add: lookup_def)
  show "is_check e \<Longrightarrow> el_checked (restored d e) = (x = JStr (el_value e))"
    using present stored by (simp add: restored_def)
  show "\<not> is_check e \<Longrightarrow> el_type e \<noteq> ''file'' \<Longrightarrow> x = JStr v \<Longrightarrow> el_value (restored d e) = v"
    using present stored by (simp add: restored_def js_or_def)
qed

lemma restore_snapshot:
  assumes "localStorage w' STORAGE_KEY = Some (Json (JObject d))"
    and "lookup d ''_formId'' = js_of_id (currentFormId w')"
    and "getElementById (document w') (to_string (js_of_id (currentFormId w'))) = Some f'"
    and "\<not> isFormFilled w'"
  shows "restoreSavedData w'
         = showAutoRestoreIndicator
             (mark_uploaded (JObject d)
                (w'\<lparr>document :=
                      put_form (f'\<lparr>elements := map (restored d) (elements f')\<rparr>) (document w')\<rparr>))"
proof -
  have "get (JObject d) ''_formId'' = Inr (js_of_id (currentFormId w'))"
    using assms(2) by (simp add: get_def)
  then show ?thesis
    using assms(1,3,4)
    by (simp add: restoreSavedData_def restore_try_def js_or_same restore_elements_object)
qed

lemma formId_of_getFormData:
  "getElementById (document w) (to_string (js_of_id (currentFormId w))) = Some f \<Longrightarrow>
   lookup (getFormData w) ''_formId'' = js_of_id (currentFormId w)"
  by (simp add: getFormData_def lookup_def AList.update_conv')

text \<open>
  Claim C1.  A snapshot is captured by \<open>getFormData\<close> from a form and saved.  The page is
  loaded again: the storage holds that snapshot, the service tracks the same form id, the
  form has the same controls, and \<open>isFormFilled\<close> finds nothing filled in.  After
  \<open>restoreSavedData\<close>, \<open>getFormData\<close> yields the same fields as the captured snapshot.  The
  controls have been set from the snapshot: a checkbox or radio button is checked exactly
  when the stored value is its own value, any other control that is not a file input
  holds the stored value verbatim.
\<close>

theorem restore_round_trip:
  assumes "getElementById (document w) (to_string (js_of_id (currentFormId w))) = Some f"
    and "\<not> storage_full w"
    and "localStorage w' STORAGE_KEY
         = localStorage (saveToLocalStorage (getFormData w) w) STORAGE_KEY"
    and "currentFormId w' = currentFormId w"
    and "getElementById (document w') (to_string (js_of_id (currentFormId w'))) = Some f'"
    and "list_all2 same_control (elements f) (elements f')"
    and "\<not> isFormFilled w'"
  shows "fields (getFormData (restoreSavedData w')) = fields (getFormData w)
         \<and> getElementById (document (restoreSavedData w')) (to_string (js_of_id (currentFormId w')))
             = Some (f'\<lparr>elements := map (restored (getFormData w)) (elements f')\<rparr>)
         \<and> (\<forall>e \<in> set (elements f'). \<forall>x. fields (getFormData w) (key_of e) = Some x \<longrightarrow>
               (if is_check e
                then el_checked (restored (getFormData w) e) = (x = JStr (el_value e))
                else el_type e = ''file'' \<or> x = JStr (el_value (restored (getFormData w) e))))"
proof -
  define d where "d = getFormData w"
  define f'' where "f'' = f'\<lparr>elements := map (restored d) (elements f')\<rparr>"
  define i where "i = to_string (js_of_id (currentFormId w'))"
  have stored: "localStorage w' STORAGE_KEY = Some (Json (JObject d))"
    using assms(2,3) by (simp add: saveToLocalStorage_stored stringify_getFormData d_def)
  have fid: "lookup d ''_formId'' = js_of_id (currentFormId w')"
    using formId_of_getFormData [OF assms(1)] assms(4) by (simp add: d_def)
  have after: "restoreSavedData w'
               = showAutoRestoreIndicator
                   (mark_uploaded (JObject d) (w'\<lparr>document := put_form f'' (document w')\<rparr>))"
    using restore_snapshot [OF stored fid assms(5,7)] by (simp add: f''_def)
  have doc: "document (restoreSavedData w') = put_form f'' (document w')"
    and cur: "currentFormId (restoreSavedData w') = currentFormId w'"
    by (simp_all add: after showAutoRestoreIndicator_def)
  have "form_id f' = i"
    using assms(5) unfolding i_def by (rule getElementById_id)
  then have "form_id f'' = i"
    by (simp add: f''_def)
  with assms(5) have found: "getElementById (document (restoreSavedData w')) i = Some f''"
    unfolding doc i_def [symmetric] by (rule getElementById_put_form)
  then have found': "getElementById (document (restoreSavedData w'))
                       (to_string (js_of_id (currentFormId (restoreSavedData w')))) = Some f''"
    by (simp add: cur i_def)
  have "fields (getFormData (restoreSavedData w')) k = fields (getFormData w) k" for k
  proof (cases "k \<in> {''_timestamp'', ''_formId''}")
    case True
    then show ?thesis
      by (simp add: fields_def)
  next
    case False
    have "map_of d k = last_val k (elements f)"
      unfolding d_def using assms(1) False by (rule fields_getFormData(1))
    with assms(6) have "last_val k (map (restored d) (elements f')) = last_val k (elements f)"
      by (rule last_val_restored)
    then have "last_val k (elements f'') = last_val k (elements f)"
      by (simp add: f''_def)
    then show ?thesis
      using False
      by (simp add: fields_getFormData(2) [OF found'] fields_getFormData(2) [OF assms(1)])
  qed
  then have "fields (getFormData (restoreSavedData w')) = fields (getFormData w)"
    by (rule ext)
  moreover have "if is_check e
        then el_checked (restored d e) = (x = JStr (el_value e))
        else el_type e = ''file'' \<or> x = JStr (el_value (restored d e))"
    if "fields d (key_of e) = Some x" for e x
  proof -
    from that have key: "key_of e \<notin> {''_timestamp'', ''_formId''}" and x: "map_of d (key_of e) = Some x"
      by (auto simp: fields_def restrict_map_def split: if_splits)
    have "map_of d (key_of e) = last_val (key_of e) (elements f)"
      unfolding d_def using assms(1) key by (rule fields_getFormData(1))
    with x obtain v where v: "x = JStr v"
      using last_val_string [of "key_of e" "elements f" x] by auto
    show ?thesis
    proof (cases "is_check e")
      case True
      then show ?thesis
        using restored_control(1) [OF x] by simp
    next
      case False
      show ?thesis
      proof (cases "el_type e = ''file''")
        case True
        with False show ?thesis
          by simp
      next
        case nofile: False
        from restored_control(2) [OF x False nofile v] v False show ?thesis
          by simp
      qed
    qed
  qed
  ultimately show ?thesis
    using found unfolding i_def f''_def d_def by auto
qed

text \<open>
  The statement of C1 on the registration form: name, e-mail address and consent are
  entered and saved; on the page loaded again they are all back.
\<close>

theorem restore_round_trip_witness:
  "fields (getFormData (restoreSavedData reloaded_page)) = fields (getFormData filled_visit)
   \<and> document (restoreSavedData reloaded_page) = [membership_form ''Asha'' ''a@x.org'' True]"
proof -
  have capture: "getElementById (document filled_visit)
                   (to_string (js_of_id (currentFormId filled_visit)))
                 = Some (membership_form ''Asha'' ''a@x.org'' True)"
    and room: "\<not> storage_full filled_visit"
    by (simp_all add: model_defs)
  have store: "localStorage reloaded_page STORAGE_KEY
               = localStorage (saveToLocalStorage (getFormData filled_visit) filled_visit)
                   STORAGE_KEY"
    by (simp add: reloaded_page_def page_def setupFormListeners_def new_service_def)
  have again: "currentFormId reloaded_page = currentFormId filled_visit"
    and found: "getElementById (document reloaded_page)
                  (to_string (js_of_id (currentFormId reloaded_page)))
                = Some (membership_form [] [] False)"
    and blank: "\<not> isFormFilled reloaded_page"
    by (simp_all add: reloaded_page_def filled_visit_def first_visit_def page_def
        setupFormListeners_def new_service_def is_tracked_def starts_with_def
        membership_form_def control_def js_of_id_def getElementById_def isFormFilled_def trim_def)
  have same: "list_all2 same_control (elements (membership_form ''Asha'' ''a@x.org'' True))
                (elements (membership_form [] [] False))"
    by (simp add: membership_form_def control_def same_control_def is_check_def)
  from restore_round_trip [OF capture room store again found same blank]
  have "fields (getFormData (restoreSavedData reloaded_page)) = fields (getFormData filled_visit)"
    by (rule conjunct1)
  moreover have "document (restoreSavedData reloaded_page)
                 = [membership_form ''Asha'' ''a@x.org'' True]"
    by (simp add: model_defs)
  ultimately show ?thesis
    by (rule conjI)
qed

end
